theory Spec2Isabelle
  imports Main "HOL-Library.Word" "HOL-Library.Sublist"
begin

section \<open>The memory of the process\<close>

text \<open>
  The runner of \<^verbatim>\<open>examples/executor_runner/executor_runner.cpp\<close> touches two kinds of
  storage: the static array \<^verbatim>\<open>method_allocator_pool\<close> and the arrays that
  \<^verbatim>\<open>std::make_unique<uint8_t[]>\<close> obtains from the free store. Memory is a list of
  blocks, one per object; a pointer is a block number and an offset inside the block. A block
  that has been released is \<open>None\<close>. The free store has a budget of \<open>heap_limit\<close> bytes, so
  that \<^verbatim>\<open>std::bad_alloc\<close> is a branch of the model.
\<close>

type_synonym byte = "8 word"

type_synonym ptr = "nat \<times> nat"

record block =
  block_size :: nat
  block_bytes :: "nat \<Rightarrow> byte"

record proc =
  memory :: "block option list"
  heap_used :: nat
  heap_limit :: nat

definition zero_block :: "nat \<Rightarrow> block" where
  "zero_block n = \<lparr>block_size = n, block_bytes = (\<lambda>_. 0)\<rparr>"

text \<open>
  \<^verbatim>\<open>static uint8_t method_allocator_pool[4 * 1024U * 1024U]; // 4 MB\<close>
  The array has static storage duration: it is block 0 of the memory the process starts
  with, and it is zero-initialised.
\<close>

definition sizeof_method_allocator_pool :: nat where
  "sizeof_method_allocator_pool = 4 * 1024 * 1024"

definition method_allocator_pool :: ptr where
  "method_allocator_pool = (0, 0)"

definition process_start :: "nat \<Rightarrow> proc" where
  "process_start limit =
     \<lparr>memory = [Some (zero_block sizeof_method_allocator_pool)], heap_used = 0, heap_limit = limit\<rparr>"

text \<open>Reading and writing one byte; an access outside a live block has no defined result.\<close>

definition load_byte :: "proc \<Rightarrow> ptr \<Rightarrow> byte option" where
  "load_byte s p =
     (case p of (b, off) \<Rightarrow>
        if b < length (memory s) then
          (case memory s ! b of
             None \<Rightarrow> None
           | Some blk \<Rightarrow> if off < block_size blk then Some (block_bytes blk off) else None)
        else None)"

definition store_byte :: "proc \<Rightarrow> ptr \<Rightarrow> byte \<Rightarrow> proc option" where
  "store_byte s p v =
     (case p of (b, off) \<Rightarrow>
        if b < length (memory s) then
          (case memory s ! b of
             None \<Rightarrow> None
           | Some blk \<Rightarrow>
               if off < block_size blk
               then Some (s\<lparr>memory := (memory s)[b := Some (blk\<lparr>block_bytes := (block_bytes blk)(off := v)\<rparr>)]\<rparr>)
               else None)
        else None)"

section \<open>Runs: failures, events, state\<close>

text \<open>
  A run either returns a value or stops: a failed \<^verbatim>\<open>ET_CHECK\<close>/\<^verbatim>\<open>ET_CHECK_MSG\<close>
  aborts the process, \<^verbatim>\<open>std::bad_alloc\<close> leaves the function, an access to the value
  of a \<^verbatim>\<open>Result\<close> that holds an error has no value to go on with, and so has a
  write to a stream that \<^verbatim>\<open>fopen\<close> did not open. The calls into the runtime and the
  log lines are recorded as events, in the order the code makes them. The state of a run
  that stops is the state at the point where it stopped: an abort runs no destructors; an
  exception runs those of the frame it leaves.
\<close>

datatype Error = Ok | MemoryAllocationFailed | ErrorCode nat

type_synonym 'a Result = "Error + 'a"

datatype failure =
    CheckFailed string
  | BadAlloc
  | FailedResultAccess string
  | NullStreamAccess string

datatype EValue = ENone | EInt int | EBool bool | ETensor "byte list"

datatype log_level = Info | Error

datatype log_msg =
    ExtraCommandlineArgs "string list"
  | FailedToParseModelFile string
  | ModelFileIsLoaded string
  | UsingMethod string
  | SettingUpPlannedBuffer nat nat
  | MethodLoaded
  | InputsPrepared
  | ModelExecutedSuccessfully
  | NumOutputs nat

text \<open>\<^verbatim>\<open>Span<uint8_t>{data, size}\<close>: a pointer and a length, owning nothing.\<close>

record Span =
  span_data :: ptr
  span_size :: nat

text \<open>
  \<^verbatim>\<open>MemoryAllocator(uint32_t size, uint8_t* base_address)\<close>: the arena over a caller's
  buffer. \<open>ma_cur\<close> is the number of bytes handed out so far.
\<close>

record MemoryAllocator =
  ma_size :: nat
  ma_base :: ptr
  ma_cur :: nat
  ma_profiling :: "string option"

text \<open>\<^verbatim>\<open>HierarchicalAllocator planned_memory({planned_spans.data(), planned_spans.size()})\<close>\<close>

datatype HierarchicalAllocator = HierarchicalAllocator (buffers: "Span list")

text \<open>\<^verbatim>\<open>MemoryManager memory_manager(&method_allocator, &planned_memory)\<close>\<close>

record MemoryManager =
  mm_method_allocator :: MemoryAllocator
  mm_planned_memory :: HierarchicalAllocator

datatype event =
    RuntimeInit
  | Log log_level log_msg
  | LoaderFrom string
  | ProgramLoad
  | GetMethodName nat
  | MethodMetaQuery string
  | LoadMethod string MemoryManager
  | PrepareInputs
  | ExecuteMethod MemoryManager
  | OutputsSize
  | GetOutputs nat
  | PrintOutput nat EValue
  | DumpProfileResults
  | Fopen string
  | WriteProfile string nat
  | Fclose string
  | FreeInputs
  | OptionalNullCall

type_synonym 'a run = "proc \<Rightarrow> (failure + 'a) \<times> event list \<times> proc"

definition ret :: "'a \<Rightarrow> 'a run" where
  "ret x = (\<lambda>s. (Inr x, [], s))"

definition fail :: "failure \<Rightarrow> 'a run" where
  "fail e = (\<lambda>s. (Inl e, [], s))"

definition emit :: "event \<Rightarrow> unit run" where
  "emit ev = (\<lambda>s. (Inr (), [ev], s))"

definition bind :: "'a run \<Rightarrow> ('a \<Rightarrow> 'b run) \<Rightarrow> 'b run" where
  "bind m f = (\<lambda>s.
     case m s of
       (Inl e, evs, s') \<Rightarrow> (Inl e, evs, s')
     | (Inr x, evs, s') \<Rightarrow> (case f x s' of (r, evs', s'') \<Rightarrow> (r, evs @ evs', s'')))"

definition outcome :: "(failure + 'a) \<times> event list \<times> proc \<Rightarrow> failure + 'a" where
  "outcome r = fst r"

definition events :: "(failure + 'a) \<times> event list \<times> proc \<Rightarrow> event list" where
  "events r = fst (snd r)"

definition final :: "(failure + 'a) \<times> event list \<times> proc \<Rightarrow> proc" where
  "final r = snd (snd r)"

text \<open>\<^verbatim>\<open>ET_LOG(level, ...)\<close> writes one log line.\<close>

definition ET_LOG :: "log_level \<Rightarrow> log_msg \<Rightarrow> unit run" where
  "ET_LOG lvl msg = emit (Log lvl msg)"

text \<open>\<^verbatim>\<open>ET_CHECK_MSG(cond, ...)\<close> and \<^verbatim>\<open>ET_CHECK(cond)\<close> abort the process when the
  condition is false.\<close>

definition ET_CHECK_MSG :: "bool \<Rightarrow> string \<Rightarrow> unit run" where
  "ET_CHECK_MSG cond msg = (if cond then ret () else fail (CheckFailed msg))"

definition ok :: "'a Result \<Rightarrow> bool" where
  "ok r = (case r of Inl _ \<Rightarrow> False | Inr _ \<Rightarrow> True)"

text \<open>
  \<^verbatim>\<open>Result::get()\<close>, \<^verbatim>\<open>operator*\<close> and \<^verbatim>\<open>operator->\<close>: the value of a result. A result
  that holds an error has none; the run cannot go on past the access. The failure names the
  expression that reached for the value.
\<close>

definition Result_get :: "string \<Rightarrow> 'a Result \<Rightarrow> 'a run" where
  "Result_get what r = (case r of Inl _ \<Rightarrow> fail (FailedResultAccess what) | Inr v \<Rightarrow> ret v)"

text \<open>
  \<^verbatim>\<open>std::make_unique<uint8_t[]>(n)\<close> is \<^verbatim>\<open>new uint8_t[n]()\<close>: a fresh array of \<open>n\<close>
  value-initialised (zero) bytes, or \<^verbatim>\<open>std::bad_alloc\<close>.
\<close>

definition make_unique_array :: "nat \<Rightarrow> ptr run" where
  "make_unique_array n = (\<lambda>s.
     if heap_used s + n \<le> heap_limit s
     then (Inr (length (memory s), 0), [],
           s\<lparr>memory := memory s @ [Some (zero_block n)], heap_used := heap_used s + n\<rparr>)
     else (Inl BadAlloc, [], s))"

text \<open>The destructor of a \<^verbatim>\<open>std::unique_ptr<uint8_t[]>\<close>: \<^verbatim>\<open>delete[]\<close>.\<close>

definition delete_array :: "ptr \<Rightarrow> proc \<Rightarrow> proc" where
  "delete_array p s =
     (case p of (b, off) \<Rightarrow>
        if b < length (memory s) then
          (case memory s ! b of
             None \<Rightarrow> s
           | Some blk \<Rightarrow> s\<lparr>memory := (memory s)[b := None], heap_used := heap_used s - block_size blk\<rparr>)
        else s)"

text \<open>The destructor of \<^verbatim>\<open>planned_buffers\<close> releases every array it owns.\<close>

fun destroy_planned_buffers :: "ptr list \<Rightarrow> proc \<Rightarrow> proc" where
  "destroy_planned_buffers [] s = s"
| "destroy_planned_buffers (p # ps) s = destroy_planned_buffers ps (delete_array p s)"

text \<open>
  An exception thrown while \<^verbatim>\<open>planned_buffers\<close> is alive leaves the function through
  its frame: the vector is destroyed on the way and releases the arrays made so far. (In
  \<^verbatim>\<open>main\<close> nothing catches the exception and the process ends after it.)
\<close>

definition unwinding :: "ptr list \<Rightarrow> 'a run \<Rightarrow> 'a run" where
  "unwinding planned_buffers m = (\<lambda>s.
     case m s of
       (Inl e, evs, s') \<Rightarrow> (Inl e, evs, destroy_planned_buffers planned_buffers s')
     | (Inr x, evs, s') \<Rightarrow> (Inr x, evs, s'))"

section \<open>The metadata of a method\<close>

text \<open>
  \<^verbatim>\<open>MethodMeta\<close> is declared outside this file. The runner reads two things from it:
  \<^verbatim>\<open>num_memory_planned_buffers()\<close>, a \<^verbatim>\<open>size_t\<close>, and
  \<^verbatim>\<open>memory_planned_buffer_size(id)\<close>, a \<^verbatim>\<open>Result\<close> of an integer that the runner
  converts with \<^verbatim>\<open>static_cast<size_t>\<close>.
\<close>

record MethodMeta =
  num_memory_planned_buffers :: nat
  memory_planned_buffer_size :: "nat \<Rightarrow> int Result"

definition static_cast_size_t :: "int \<Rightarrow> nat" where
  "static_cast_size_t v = nat (v mod 2 ^ 64)"

text \<open>The size the loop uses for an id the metadata answers (0 stands for no answer).\<close>

definition declared_size :: "MethodMeta \<Rightarrow> nat \<Rightarrow> nat" where
  "declared_size meta i =
     (case memory_planned_buffer_size meta i of Inl _ \<Rightarrow> 0 | Inr v \<Rightarrow> static_cast_size_t v)"

section \<open>The planned buffers\<close>

text \<open>
  \<^verbatim>\<open>
  for (size_t id = 0; id < num_memory_planned_buffers; ++id) {
    size_t buffer_size =
        static_cast<size_t>(method_meta->memory_planned_buffer_size(id).get());
    ET_LOG(Info, "Setting up planned buffer %zu, size %zu.", id, buffer_size);
    planned_buffers.push_back(std::make_unique<uint8_t[]>(buffer_size));
    planned_spans.push_back({planned_buffers.back().get(), buffer_size});
  }
  \<close>
\<close>

lemma bind_cong [fundef_cong]:
  "m = m' \<Longrightarrow> (\<And>x. f x = f' x) \<Longrightarrow> bind m f = bind m' f'"
proof -
  assume a: "m = m'" and b: "\<And>x. f x = f' x"
  from b have "f = f'" by (rule ext)
  with a show ?thesis by simp
qed

function planned_buffers_loop ::
  "MethodMeta \<Rightarrow> nat \<Rightarrow> nat \<Rightarrow> ptr list \<Rightarrow> Span list \<Rightarrow> (ptr list \<times> Span list) run" where
  "planned_buffers_loop meta num idx planned_buffers planned_spans =
     (if idx < num then
        bind (Result_get ''memory_planned_buffer_size(id).get()'' (memory_planned_buffer_size meta idx)) (\<lambda>v.
        let buffer_size = static_cast_size_t v in
        bind (ET_LOG Info (SettingUpPlannedBuffer idx buffer_size)) (\<lambda>_.
        bind (unwinding planned_buffers (make_unique_array buffer_size)) (\<lambda>p.
        let planned_buffers' = planned_buffers @ [p];
            planned_spans' = planned_spans @ [\<lparr>span_data = last planned_buffers', span_size = buffer_size\<rparr>]
        in planned_buffers_loop meta num (Suc idx) planned_buffers' planned_spans')))
      else ret (planned_buffers, planned_spans))"
  by pat_completeness auto
termination
  by (relation "measure (\<lambda>(meta, num, idx, planned_buffers, planned_spans). num - idx)") auto

declare planned_buffers_loop.simps [simp del]

definition scope_exit :: "ptr list \<Rightarrow> unit run" where
  "scope_exit planned_buffers = (\<lambda>s. (Inr (), [], destroy_planned_buffers planned_buffers s))"

section \<open>The metadata arena\<close>

text \<open>
  \<^verbatim>\<open>
  MemoryAllocator method_allocator{
      MemoryAllocator(sizeof(method_allocator_pool), method_allocator_pool)};
  method_allocator.enable_profiling("method allocator");
  \<close>
\<close>

definition MemoryAllocator_ctor :: "nat \<Rightarrow> ptr \<Rightarrow> MemoryAllocator" where
  "MemoryAllocator_ctor sz base_address =
     \<lparr>ma_size = sz, ma_base = base_address, ma_cur = 0, ma_profiling = None\<rparr>"

definition enable_profiling :: "string \<Rightarrow> MemoryAllocator \<Rightarrow> MemoryAllocator" where
  "enable_profiling name a = a\<lparr>ma_profiling := Some name\<rparr>"

definition method_allocator_ctor :: MemoryAllocator where
  "method_allocator_ctor =
     enable_profiling ''method allocator''
       (MemoryAllocator_ctor sizeof_method_allocator_pool method_allocator_pool)"

datatype arena_error = OutOfArenaSpace

text \<open>
  Modelled from the spec: \<^verbatim>\<open>MemoryAllocator::allocate\<close> is defined in the runtime, outside
  this file. The spec gives its contract: \<^verbatim>\<open>allocate(n_bytes) -> region | Fail(OutOfArenaSpace)\<close>,
  monotonic, a fixed owned buffer plus an offset counter; a request that would exceed the
  remaining capacity fails immediately and consumes nothing.
\<close>

definition allocate :: "nat \<Rightarrow> MemoryAllocator \<Rightarrow> (arena_error + Span) \<times> MemoryAllocator" where
  "allocate n a =
     (if ma_cur a + n \<le> ma_size a
      then (Inr \<lparr>span_data = (fst (ma_base a), snd (ma_base a) + ma_cur a), span_size = n\<rparr>,
            a\<lparr>ma_cur := ma_cur a + n\<rparr>)
      else (Inl OutOfArenaSpace, a))"

text \<open>A sequence of requests, each one made on the arena the earlier ones left; the results
  are kept in order, failures included.\<close>

fun allocate_seq :: "nat list \<Rightarrow> MemoryAllocator \<Rightarrow> (arena_error + Span) list \<times> MemoryAllocator" where
  "allocate_seq [] a = ([], a)"
| "allocate_seq (n # ns) a =
     (case allocate n a of (r, a') \<Rightarrow>
        (case allocate_seq ns a' of (rs, a'') \<Rightarrow> (r # rs, a'')))"

section \<open>The runtime the runner calls\<close>

text \<open>
  The loader, the program, the method and the profiler are the runtime's; the runner only
  calls them. What they answer is the input of a run.
\<close>

datatype FileDataLoader = FileDataLoader "byte list"

record Method =
  execute :: Error
  outputs_size :: nat
  get_outputs :: "nat \<Rightarrow> Error \<times> EValue list"

text \<open>
  \<open>method_load_requests\<close> are the sizes the runtime asks of the method allocator while it
  loads the method; \<open>method_load_result\<close> is what \<^verbatim>\<open>load_method\<close> returns when the
  arena had room for all of them.
\<close>

record Program =
  get_method_name :: "nat \<Rightarrow> string Result"
  method_meta :: "string \<Rightarrow> MethodMeta Result"
  method_load_requests :: "string \<Rightarrow> nat list"
  method_load_result :: "string \<Rightarrow> Method Result"

record World =
  FileDataLoader_from :: "string \<Rightarrow> FileDataLoader Result"
  Program_load :: "FileDataLoader \<Rightarrow> Program Result"
  prof_result_num_bytes :: nat
  fopen_opens :: "string \<Rightarrow> bool"

text \<open>
  Modelled from the spec: \<^verbatim>\<open>Program::load_method(method_name, &memory_manager)\<close> is
  defined in the runtime, outside this file. The spec and the runner's comments say that the
  method allocator is used only while a method is loaded, and that loading returns an error
  when there was not enough memory. The arena is used through the pointer the memory manager
  holds, so the manager's allocator is returned updated.
\<close>

fun load_allocations :: "nat list \<Rightarrow> MemoryAllocator \<Rightarrow> (arena_error + unit) \<times> MemoryAllocator" where
  "load_allocations [] a = (Inr (), a)"
| "load_allocations (n # ns) a =
     (case allocate n a of
        (Inl e, a') \<Rightarrow> (Inl e, a')
      | (Inr _, a') \<Rightarrow> load_allocations ns a')"

definition load_method :: "Program \<Rightarrow> string \<Rightarrow> MemoryManager \<Rightarrow> Method Result \<times> MemoryManager" where
  "load_method program method_name memory_manager =
     (case load_allocations (method_load_requests program method_name)
             (mm_method_allocator memory_manager) of
        (Inl _, a') \<Rightarrow> (Inl MemoryAllocationFailed, memory_manager\<lparr>mm_method_allocator := a'\<rparr>)
      | (Inr _, a') \<Rightarrow> (method_load_result program method_name,
                        memory_manager\<lparr>mm_method_allocator := a'\<rparr>))"

section \<open>The load/execute flow\<close>

text \<open>
  The body of \<^verbatim>\<open>main\<close> (lines 64 to 183) and the body of \<^verbatim>\<open>PytorchJni::forward\<close>
  (lines 325 to 440) are the same text. Each stretch of it is one definition here, used by
  both.
\<close>

text \<open>
  \<^verbatim>\<open>
  Result<FileDataLoader> loader = FileDataLoader::from(model_path);
  ET_CHECK_MSG(loader.ok(), "FileDataLoader::from() failed: 0x%" PRIx32, loader.error());
  Result<Program> program = Program::load(&loader.get());
  if (!program.ok()) {
    ET_LOG(Error, "Failed to parse model file %s", model_path);
  }
  ET_LOG(Info, "Model file %s is loaded.", model_path);
  \<close>
  There is no \<^verbatim>\<open>return\<close> in the branch of a failed parse.
\<close>

definition load_program :: "World \<Rightarrow> string \<Rightarrow> Program Result run" where
  "load_program world model_path =
     bind (emit (LoaderFrom model_path)) (\<lambda>_.
     let loader = FileDataLoader_from world model_path in
     bind (ET_CHECK_MSG (ok loader) ''FileDataLoader::from() failed'') (\<lambda>_.
     bind (Result_get ''loader.get()'' loader) (\<lambda>loader_value.
     bind (emit ProgramLoad) (\<lambda>_.
     let program = Program_load world loader_value in
     bind (if \<not> ok program then ET_LOG Error (FailedToParseModelFile model_path) else ret ()) (\<lambda>_.
     bind (ET_LOG Info (ModelFileIsLoaded model_path)) (\<lambda>_.
     ret program))))))"

text \<open>
  \<^verbatim>\<open>
  const char* method_name = nullptr;
  {
    const auto method_name_result = program->get_method_name(0);
    ET_CHECK_MSG(method_name_result.ok(), "Program has no methods");
    method_name = *method_name_result;
  }
  ET_LOG(Info, "Using method %s", method_name);
  Result<MethodMeta> method_meta = program->method_meta(method_name);
  ET_CHECK_MSG(method_meta.ok(), "Failed to get method_meta for %s: 0x%x", ...);
  \<close>
\<close>

definition first_method :: "Program Result \<Rightarrow> (Program \<times> string \<times> MethodMeta) run" where
  "first_method program =
     bind (Result_get ''program->get_method_name(0)'' program) (\<lambda>program_value.
     bind (emit (GetMethodName 0)) (\<lambda>_.
     let method_name_result = get_method_name program_value 0 in
     bind (ET_CHECK_MSG (ok method_name_result) ''Program has no methods'') (\<lambda>_.
     bind (Result_get ''*method_name_result'' method_name_result) (\<lambda>method_name.
     bind (ET_LOG Info (UsingMethod method_name)) (\<lambda>_.
     bind (emit (MethodMetaQuery method_name)) (\<lambda>_.
     let meta = method_meta program_value method_name in
     bind (ET_CHECK_MSG (ok meta) ''Failed to get method_meta'') (\<lambda>_.
     bind (Result_get ''method_meta->num_memory_planned_buffers()'' meta) (\<lambda>meta_value.
     ret (program_value, method_name, meta_value)))))))))"

text \<open>
  \<^verbatim>\<open>
  MemoryAllocator method_allocator{...};
  std::vector<std::unique_ptr<uint8_t[]>> planned_buffers; // Owns the memory
  std::vector<Span<uint8_t>> planned_spans; // Passed to the allocator
  size_t num_memory_planned_buffers = method_meta->num_memory_planned_buffers();
  for (...) {...}
  HierarchicalAllocator planned_memory({planned_spans.data(), planned_spans.size()});
  MemoryManager memory_manager(&method_allocator, &planned_memory);
  \<close>
\<close>

definition assemble_memory_manager :: "MethodMeta \<Rightarrow> (ptr list \<times> MemoryManager) run" where
  "assemble_memory_manager meta =
     (let method_allocator = method_allocator_ctor;
          num = num_memory_planned_buffers meta in
      bind (planned_buffers_loop meta num 0 [] []) (\<lambda>(planned_buffers, planned_spans).
      let planned_memory = HierarchicalAllocator (take (length planned_spans) planned_spans);
          memory_manager = \<lparr>mm_method_allocator = method_allocator, mm_planned_memory = planned_memory\<rparr>
      in ret (planned_buffers, memory_manager)))"

text \<open>
  \<^verbatim>\<open>
  for (int i = 0; i < outputs.size(); ++i) {
    std::cout << "Output " << i << ": " << outputs[i] << std::endl;
  }
  \<close>
\<close>

function print_outputs_loop :: "EValue list \<Rightarrow> nat \<Rightarrow> unit run" where
  "print_outputs_loop outputs i =
     (if i < length outputs then
        bind (emit (PrintOutput i (outputs ! i))) (\<lambda>_. print_outputs_loop outputs (Suc i))
      else ret ())"
  by pat_completeness auto
termination
  by (relation "measure (\<lambda>(outputs, i). length outputs - i)") auto

declare print_outputs_loop.simps [simp del]

text \<open>
  \<^verbatim>\<open>
  Result<Method> method = program->load_method(method_name, &memory_manager);
  ET_CHECK_MSG(method.ok(), "Loading of method %s failed with status 0x%" PRIx32, ...);
  ET_LOG(Info, "Method loaded.");
  auto inputs = util::PrepareInputTensors(*method);
  ET_LOG(Info, "Inputs prepared.");
  Error status = method->execute();
  ET_CHECK_MSG(status == Error::Ok, "Execution of method %s failed with status 0x%" PRIx32, ...);
  ET_LOG(Info, "Model executed successfully.");
  std::vector<EValue> outputs(method->outputs_size());
  ET_LOG(Info, "%zu outputs: ", outputs.size());
  status = method->get_outputs(outputs.data(), outputs.size());
  ET_CHECK(status == Error::Ok);
  for (...) {...}
  \<close>
  The vector has \<^verbatim>\<open>outputs_size()\<close> default (\<^verbatim>\<open>None\<close>) values; \<^verbatim>\<open>get_outputs\<close> writes
  into its slots.
\<close>

definition filled_outputs :: "nat \<Rightarrow> EValue list \<Rightarrow> EValue list" where
  "filled_outputs n written = take n (written @ replicate n ENone)"

definition load_and_execute :: "Program \<Rightarrow> string \<Rightarrow> MemoryManager \<Rightarrow> EValue list run" where
  "load_and_execute program method_name memory_manager =
     bind (emit (LoadMethod method_name memory_manager)) (\<lambda>_.
     case load_method program method_name memory_manager of (method_result, memory_manager') \<Rightarrow>
     bind (ET_CHECK_MSG (ok method_result) ''Loading of method failed'') (\<lambda>_.
     bind (ET_LOG Info MethodLoaded) (\<lambda>_.
     bind (Result_get ''*method'' method_result) (\<lambda>m.
     bind (emit PrepareInputs) (\<lambda>_.
     bind (ET_LOG Info InputsPrepared) (\<lambda>_.
     bind (emit (ExecuteMethod memory_manager')) (\<lambda>_.
     let status = execute m in
     bind (ET_CHECK_MSG (status = Ok) ''Execution of method failed'') (\<lambda>_.
     bind (ET_LOG Info ModelExecutedSuccessfully) (\<lambda>_.
     bind (emit OutputsSize) (\<lambda>_.
     let n = outputs_size m in
     bind (ET_LOG Info (NumOutputs n)) (\<lambda>_.
     bind (emit (GetOutputs n)) (\<lambda>_.
     case get_outputs m n of (status, written) \<Rightarrow>
     let outputs = filled_outputs n written in
     bind (ET_CHECK_MSG (status = Ok) ''status == Error::Ok'') (\<lambda>_.
     bind (print_outputs_loop outputs 0) (\<lambda>_.
     ret outputs))))))))))))))"

text \<open>The stretch from the loader to the printed outputs, as both functions have it.\<close>

definition load_execute_flow :: "World \<Rightarrow> string \<Rightarrow> (ptr list \<times> EValue list) run" where
  "load_execute_flow world model_path =
     bind (load_program world model_path) (\<lambda>program.
     bind (first_method program) (\<lambda>(program_value, method_name, meta).
     bind (assemble_memory_manager meta) (\<lambda>(planned_buffers, memory_manager).
     bind (load_and_execute program_value method_name memory_manager) (\<lambda>outputs.
     ret (planned_buffers, outputs)))))"

section \<open>The command-line runner\<close>

text \<open>
  \<^verbatim>\<open>int main(int argc, char** argv)\<close>. \<open>extra_args\<close> are the arguments that
  \<^verbatim>\<open>gflags::ParseCommandLineFlags(&argc, &argv, true)\<close> leaves after the program name, so
  \<^verbatim>\<open>argc != 1\<close> says that there are some.
\<close>

record Flags =
  FLAGS_model_path :: string
  FLAGS_prof_result_path :: string

text \<open>
  \<^verbatim>\<open>
  FILE* ptr = fopen(FLAGS_prof_result_path.c_str(), "w+");
  fwrite(prof_result.prof_data, 1, prof_result.num_bytes, ptr);
  fclose(ptr);
  \<close>
  The result of \<^verbatim>\<open>fopen\<close> is not checked: when the file cannot be opened, \<^verbatim>\<open>fwrite\<close>
  is handed a null stream. \<open>fopen_opens\<close> says for which paths \<^verbatim>\<open>fopen\<close> gives a
  stream.
\<close>

definition write_profile :: "World \<Rightarrow> string \<Rightarrow> nat \<Rightarrow> unit run" where
  "write_profile world path num_bytes =
     bind (emit (Fopen path)) (\<lambda>_.
     if fopen_opens world path then
       bind (emit (WriteProfile path num_bytes)) (\<lambda>_.
       emit (Fclose path))
     else fail (NullStreamAccess ''fwrite''))"

definition main :: "World \<Rightarrow> Flags \<Rightarrow> string list \<Rightarrow> int run" where
  "main world flags extra_args =
     bind (emit RuntimeInit) (\<lambda>_.
     if extra_args \<noteq> [] then
       bind (ET_LOG Error (ExtraCommandlineArgs extra_args)) (\<lambda>_. ret 1)
     else
       bind (load_execute_flow world (FLAGS_model_path flags)) (\<lambda>(planned_buffers, outputs).
       bind (emit DumpProfileResults) (\<lambda>_.
       bind (if prof_result_num_bytes world \<noteq> 0
             then write_profile world (FLAGS_prof_result_path flags) (prof_result_num_bytes world)
             else ret ()) (\<lambda>_.
       bind (emit FreeInputs) (\<lambda>_.
       bind (scope_exit planned_buffers) (\<lambda>_.
       ret 0))))))"

section \<open>The JNI binding\<close>

text \<open>
  \<^verbatim>\<open>class JEValue\<close> only declares the type codes of the Java class; the values a Java
  \<^verbatim>\<open>EValue\<close> can hold are named after them. \<open>JOptionalNull\<close> is what the static Java
  method \<^verbatim>\<open>optionalNull\<close> returns.
\<close>

datatype JEValue =
    JOptionalNull
  | JTensor "byte list"
  | JBool bool
  | JLong int
  | JString string

definition kTypeCodeNull :: int where
  "kTypeCodeNull = 1"

record PytorchJni =
  model_path_member :: string

text \<open>
  \<^verbatim>\<open>facebook::jni::local_ref<JEValue> forward(alias_ref<JArrayClass<JEValue::javaobject>::javaobject> jinputs)\<close>.
  The body never reads \<^verbatim>\<open>jinputs\<close>; it ends with
  \<^verbatim>\<open>return jMethodOptionalNull(JEValue::javaClassStatic());\<close>
\<close>

definition forward :: "World \<Rightarrow> PytorchJni \<Rightarrow> JEValue list \<Rightarrow> JEValue run" where
  "forward world this jinputs =
     bind (load_execute_flow world (model_path_member this)) (\<lambda>(planned_buffers, outputs).
     bind (emit FreeInputs) (\<lambda>_.
     bind (emit OptionalNullCall) (\<lambda>_.
     bind (scope_exit planned_buffers) (\<lambda>_.
     ret JOptionalNull))))"

text \<open>
  The marshalling the spec speaks of, in the spec's words: the outputs of the method, marshaled
  into a Java \<^verbatim>\<open>EValue\<close>. The runner's file has no such conversion (only commented-out
  lines name one); the type codes of \<^verbatim>\<open>JEValue\<close> say which Java value each
  \<^verbatim>\<open>EValue\<close> would become.
\<close>

definition spec_marshalled :: "EValue \<Rightarrow> JEValue" where
  "spec_marshalled v =
     (case v of ENone \<Rightarrow> JOptionalNull | EInt i \<Rightarrow> JLong i | EBool b \<Rightarrow> JBool b | ETensor bs \<Rightarrow> JTensor bs)"

section \<open>Regions and their addresses\<close>

text \<open>The addresses a span covers, and the span an arena is built over.\<close>

definition span_addresses :: "Span \<Rightarrow> ptr set" where
  "span_addresses r =
     {(b, off). b = fst (span_data r) \<and> snd (span_data r) \<le> off \<and> off < snd (span_data r) + span_size r}"

definition arena_span :: "MemoryAllocator \<Rightarrow> Span" where
  "arena_span a = \<lparr>span_data = ma_base a, span_size = ma_size a\<rparr>"

text \<open>The static pool is block 0 of every state of the process.\<close>

definition pool_present :: "proc \<Rightarrow> bool" where
  "pool_present s =
     (case memory s of
        [] \<Rightarrow> False
      | b # _ \<Rightarrow> (case b of None \<Rightarrow> False | Some blk \<Rightarrow> block_size blk = sizeof_method_allocator_pool))"

text \<open>An arena over the static pool: its base is the pool, its capacity the pool's 4 MiB.\<close>

definition pool_arena :: "MemoryAllocator \<Rightarrow> bool" where
  "pool_arena a =
     (ma_base a = method_allocator_pool \<and> ma_size a = 4 * 1024 * 1024 \<and> ma_cur a \<le> ma_size a)"

section \<open>What a run shows\<close>

text \<open>The four steps of a load/execute cycle, as the events of a run show them.\<close>

datatype flow_step = BindMethod | FillInputs | ExecuteOnce | ReadOutputs

fun flow_step_of :: "event \<Rightarrow> flow_step option" where
  "flow_step_of (LoadMethod _ _) = Some BindMethod"
| "flow_step_of PrepareInputs = Some FillInputs"
| "flow_step_of (ExecuteMethod _) = Some ExecuteOnce"
| "flow_step_of (GetOutputs _) = Some ReadOutputs"
| "flow_step_of _ = None"

definition flow_steps :: "event list \<Rightarrow> flow_step list" where
  "flow_steps evs = List.map_filter flow_step_of evs"

text \<open>The memory managers a run hands to the runtime: at binding and at execution.\<close>

fun manager_of :: "event \<Rightarrow> MemoryManager option" where
  "manager_of (LoadMethod _ memory_manager) = Some memory_manager"
| "manager_of (ExecuteMethod memory_manager) = Some memory_manager"
| "manager_of _ = None"

definition managers :: "event list \<Rightarrow> MemoryManager list" where
  "managers evs = List.map_filter manager_of evs"

text \<open>Events that are neither one of the four steps nor carry a memory manager.\<close>

definition quiet :: "event list \<Rightarrow> bool" where
  "quiet evs = (\<forall>ev \<in> set evs. flow_step_of ev = None \<and> manager_of ev = None)"

text \<open>
  The structure of a run: its events with the addresses of the planned buffers left out.
  What remains are the log lines (with the id and size of every planned buffer and the number
  of outputs), the calls, and the sizes of the spans.
\<close>

definition erase_manager :: "MemoryManager \<Rightarrow> MemoryManager" where
  "erase_manager memory_manager =
     memory_manager\<lparr>mm_planned_memory :=
       HierarchicalAllocator (map (\<lambda>sp. sp\<lparr>span_data := (0, 0)\<rparr>) (buffers (mm_planned_memory memory_manager)))\<rparr>"

fun erase_addresses :: "event \<Rightarrow> event" where
  "erase_addresses (LoadMethod name memory_manager) = LoadMethod name (erase_manager memory_manager)"
| "erase_addresses (ExecuteMethod memory_manager) = ExecuteMethod (erase_manager memory_manager)"
| "erase_addresses ev = ev"

definition structure_of :: "event list \<Rightarrow> event list" where
  "structure_of evs = map erase_addresses evs"

text \<open>The events the command-line runner and the JNI binding have in common.\<close>

fun common_event :: "event \<Rightarrow> bool" where
  "common_event RuntimeInit = False"
| "common_event DumpProfileResults = False"
| "common_event (Fopen _) = False"
| "common_event (WriteProfile _ _) = False"
| "common_event (Fclose _) = False"
| "common_event OptionalNullCall = False"
| "common_event _ = True"

section \<open>Inputs for the examples\<close>

text \<open>The spec's scenario: two planned buffers, of 1024 and 2048 bytes.\<close>

definition example_sizes :: "nat \<Rightarrow> int" where
  "example_sizes i = (if i = 0 then 1024 else 2048)"

definition example_meta :: MethodMeta where
  "example_meta =
     \<lparr>num_memory_planned_buffers = 2,
      memory_planned_buffer_size =
        (\<lambda>i. if i = 0 then Inr 1024 else if i = 1 then Inr 2048 else Inl (ErrorCode 18))\<rparr>"

definition example_buffers :: "ptr list" where
  "example_buffers = [(1, 0), (2, 0)]"

definition example_manager :: MemoryManager where
  "example_manager =
     \<lparr>mm_method_allocator = method_allocator_ctor,
      mm_planned_memory = HierarchicalAllocator
        [\<lparr>span_data = (1, 0), span_size = 1024\<rparr>, \<lparr>span_data = (2, 0), span_size = 2048\<rparr>]\<rparr>"

definition example_after :: proc where
  "example_after =
     \<lparr>memory = [Some (zero_block sizeof_method_allocator_pool), Some (zero_block 1024), Some (zero_block 2048)],
      heap_used = 3072, heap_limit = 4096\<rparr>"

text \<open>A model file with one method, \<open>forward\<close>, that has the two planned buffers above and
  one output; and a file that does not parse.\<close>

definition example_method :: Method where
  "example_method = \<lparr>execute = Ok, outputs_size = 1, get_outputs = (\<lambda>n. (Ok, [EInt 7]))\<rparr>"

definition example_program :: Program where
  "example_program =
     \<lparr>get_method_name = (\<lambda>i. if i = 0 then Inr ''forward'' else Inl (ErrorCode 18)),
      method_meta = (\<lambda>name. if name = ''forward'' then Inr example_meta else Inl (ErrorCode 32)),
      method_load_requests = (\<lambda>name. [64, 128]),
      method_load_result = (\<lambda>name. Inr example_method)\<rparr>"

definition example_world :: World where
  "example_world =
     \<lparr>FileDataLoader_from = (\<lambda>path. Inr (FileDataLoader [])),
      Program_load = (\<lambda>loader. Inr example_program),
      prof_result_num_bytes = 0,
      fopen_opens = (\<lambda>path. True)\<rparr>"

definition unparsable_world :: World where
  "unparsable_world =
     \<lparr>FileDataLoader_from = (\<lambda>path. Inr (FileDataLoader [0, 1, 2, 3])),
      Program_load = (\<lambda>loader. Inl (ErrorCode 35)),
      prof_result_num_bytes = 0,
      fopen_opens = (\<lambda>path. True)\<rparr>"

text \<open>The same model, with 16 bytes of profile to dump and a profile path that cannot be
  opened.\<close>

definition unwritable_world :: World where
  "unwritable_world =
     \<lparr>FileDataLoader_from = (\<lambda>path. Inr (FileDataLoader [])),
      Program_load = (\<lambda>loader. Inr example_program),
      prof_result_num_bytes = 16,
      fopen_opens = (\<lambda>path. False)\<rparr>"

definition example_flags :: Flags where
  "example_flags = \<lparr>FLAGS_model_path = ''model.pte'', FLAGS_prof_result_path = ''prof_result.bin''\<rparr>"

definition example_jni :: PytorchJni where
  "example_jni = \<lparr>model_path_member = ''model.pte''\<rparr>"

text \<open>The state the first cycle leaves, and the manager and the state of a second cycle.\<close>

definition example_final :: proc where
  "example_final =
     \<lparr>memory = [Some (zero_block sizeof_method_allocator_pool), None, None],
      heap_used = 0, heap_limit = 4096\<rparr>"

definition example_manager_again :: MemoryManager where
  "example_manager_again =
     \<lparr>mm_method_allocator = method_allocator_ctor,
      mm_planned_memory = HierarchicalAllocator
        [\<lparr>span_data = (3, 0), span_size = 1024\<rparr>, \<lparr>span_data = (4, 0), span_size = 2048\<rparr>]\<rparr>"

definition example_final_again :: proc where
  "example_final_again =
     \<lparr>memory = [Some (zero_block sizeof_method_allocator_pool), None, None, None, None],
      heap_used = 0, heap_limit = 4096\<rparr>"

section \<open>Facts about runs\<close>

lemma bind_ret [simp]: "bind (ret x) f = f x"
  by (simp add: bind_def ret_def fun_eq_iff split: prod.splits)

lemma bind_fail [simp]: "bind (fail e) f = fail e"
  by (simp add: bind_def fail_def fun_eq_iff)

lemma bind_emit: "bind (emit ev) f s = (case f () s of (r, evs, s') \<Rightarrow> (r, ev # evs, s'))"
  by (simp add: bind_def emit_def)

lemma bind_make_unique_array:
  "heap_used s + n \<le> heap_limit s \<Longrightarrow>
   bind (unwinding planned_buffers (make_unique_array n)) f s =
     f (length (memory s), 0) (s\<lparr>memory := memory s @ [Some (zero_block n)], heap_used := heap_used s + n\<rparr>)"
  by (simp add: bind_def unwinding_def make_unique_array_def split: prod.splits)

lemma bind_make_unique_array_fail:
  "\<not> heap_used s + n \<le> heap_limit s \<Longrightarrow>
   bind (unwinding planned_buffers (make_unique_array n)) f s =
     (Inl BadAlloc, [], destroy_planned_buffers planned_buffers s)"
  by (simp add: bind_def unwinding_def make_unique_array_def)

lemma heap_limit_delete_array [simp]: "heap_limit (delete_array p s) = heap_limit s"
  by (cases p) (simp add: delete_array_def split: option.splits)

lemma heap_limit_destroy [simp]: "heap_limit (destroy_planned_buffers planned_buffers s) = heap_limit s"
  by (induction planned_buffers arbitrary: s) simp_all

lemma pool_present_start: "pool_present (process_start limit)"
  by (simp add: pool_present_def process_start_def zero_block_def)

lemma pool_present_append:
  "pool_present s \<Longrightarrow> memory s' = memory s @ blocks \<Longrightarrow> pool_present s'"
  by (cases "memory s") (simp_all add: pool_present_def)

lemma pool_present_delete_array:
  "fst p \<noteq> 0 \<Longrightarrow> pool_present s \<Longrightarrow> pool_present (delete_array p s)"
  by (cases p; cases "fst p"; cases "memory s")
     (auto simp: delete_array_def pool_present_def split: option.splits)

lemma pool_present_destroy:
  "\<forall>p \<in> set planned_buffers. fst p \<noteq> 0 \<Longrightarrow> pool_present s \<Longrightarrow>
   pool_present (destroy_planned_buffers planned_buffers s)"
  by (induction planned_buffers arbitrary: s) (simp_all add: pool_present_delete_array)

lemma bind_ET_LOG: "bind (ET_LOG lvl msg) f s = (case f () s of (r, evs, s') \<Rightarrow> (r, Log lvl msg # evs, s'))"
  by (simp add: ET_LOG_def bind_emit)

lemma ret_apply: "ret x s = (Inr x, [], s)"
  by (simp add: ret_def)

lemma fail_apply: "fail e s = (Inl e, [], s)"
  by (simp add: fail_def)

lemma emit_apply: "emit ev s = (Inr (), [ev], s)"
  by (simp add: emit_def)

section \<open>The steps of the flow, run\<close>

lemma load_program_run:
  "load_program world model_path s =
     (case FileDataLoader_from world model_path of
        Inl e \<Rightarrow> (Inl (CheckFailed ''FileDataLoader::from() failed''), [LoaderFrom model_path], s)
      | Inr loader_value \<Rightarrow>
          (case Program_load world loader_value of
             Inl e \<Rightarrow> (Inr (Inl e),
                        [LoaderFrom model_path, ProgramLoad,
                         Log Error (FailedToParseModelFile model_path),
                         Log Info (ModelFileIsLoaded model_path)], s)
           | Inr p \<Rightarrow> (Inr (Inr p),
                        [LoaderFrom model_path, ProgramLoad,
                         Log Info (ModelFileIsLoaded model_path)], s)))"
  by (simp add: load_program_def bind_emit bind_ET_LOG ET_CHECK_MSG_def Result_get_def ok_def
        ret_apply fail_apply Let_def split: sum.splits)

lemma first_method_run:
  "first_method program s =
     (case program of
        Inl e \<Rightarrow> (Inl (FailedResultAccess ''program->get_method_name(0)''), [], s)
      | Inr p \<Rightarrow>
          (case get_method_name p 0 of
             Inl e \<Rightarrow> (Inl (CheckFailed ''Program has no methods''), [GetMethodName 0], s)
           | Inr name \<Rightarrow>
               (case method_meta p name of
                  Inl e \<Rightarrow> (Inl (CheckFailed ''Failed to get method_meta''),
                             [GetMethodName 0, Log Info (UsingMethod name), MethodMetaQuery name], s)
                | Inr meta \<Rightarrow> (Inr (p, name, meta),
                             [GetMethodName 0, Log Info (UsingMethod name), MethodMetaQuery name], s))))"
  by (simp add: first_method_def bind_emit bind_ET_LOG ET_CHECK_MSG_def Result_get_def ok_def
        ret_apply fail_apply Let_def split: sum.splits)

lemma print_outputs_loop_run:
  "print_outputs_loop outputs i s = (Inr (), map (\<lambda>j. PrintOutput j (outputs ! j)) [i..<length outputs], s)"
proof (induction "length outputs - i" arbitrary: i)
  case 0
  then show ?case by (simp add: print_outputs_loop.simps ret_apply)
next
  case (Suc k)
  then have lt: "i < length outputs" and k: "k = length outputs - Suc i" by simp_all
  show ?case
    using lt by (subst print_outputs_loop.simps) (simp add: bind_emit Suc.hyps(1)[OF k] upt_conv_Cons)
qed

lemma length_filled_outputs [simp]: "length (filled_outputs n written) = n"
  by (simp add: filled_outputs_def)

lemma load_and_execute_run:
  "load_and_execute program method_name memory_manager s =
     (case load_method program method_name memory_manager of (method_result, memory_manager') \<Rightarrow>
        (case method_result of
           Inl e \<Rightarrow> (Inl (CheckFailed ''Loading of method failed''), [LoadMethod method_name memory_manager], s)
         | Inr m \<Rightarrow>
             if execute m \<noteq> Ok then
               (Inl (CheckFailed ''Execution of method failed''),
                [LoadMethod method_name memory_manager, Log Info MethodLoaded, PrepareInputs,
                 Log Info InputsPrepared, ExecuteMethod memory_manager'], s)
             else if fst (get_outputs m (outputs_size m)) \<noteq> Ok then
               (Inl (CheckFailed ''status == Error::Ok''),
                [LoadMethod method_name memory_manager, Log Info MethodLoaded, PrepareInputs,
                 Log Info InputsPrepared, ExecuteMethod memory_manager',
                 Log Info ModelExecutedSuccessfully, OutputsSize,
                 Log Info (NumOutputs (outputs_size m)), GetOutputs (outputs_size m)], s)
             else
               (Inr (filled_outputs (outputs_size m) (snd (get_outputs m (outputs_size m)))),
                [LoadMethod method_name memory_manager, Log Info MethodLoaded, PrepareInputs,
                 Log Info InputsPrepared, ExecuteMethod memory_manager',
                 Log Info ModelExecutedSuccessfully, OutputsSize,
                 Log Info (NumOutputs (outputs_size m)), GetOutputs (outputs_size m)] @
                map (\<lambda>j. PrintOutput j
                       (filled_outputs (outputs_size m) (snd (get_outputs m (outputs_size m))) ! j))
                  [0..<outputs_size m], s)))"
  by (simp add: load_and_execute_def bind_emit bind_ET_LOG ET_CHECK_MSG_def Result_get_def ok_def
        ret_apply fail_apply Let_def bind_def[of "print_outputs_loop _ _"] print_outputs_loop_run
        split: sum.splits prod.splits)

section \<open>The planned buffers follow the metadata\<close>

lemma planned_buffers_loop_done:
  "\<not> idx < num \<Longrightarrow> planned_buffers_loop meta num idx bufs spans s = (Inr (bufs, spans), [], s)"
  by (subst planned_buffers_loop.simps) (simp add: ret_apply)

lemma planned_buffers_loop_step:
  "idx < num \<Longrightarrow>
   planned_buffers_loop meta num idx bufs spans s =
     (case memory_planned_buffer_size meta idx of
        Inl e \<Rightarrow> (Inl (FailedResultAccess ''memory_planned_buffer_size(id).get()''), [], s)
      | Inr v \<Rightarrow>
          if heap_used s + static_cast_size_t v \<le> heap_limit s then
            (case planned_buffers_loop meta num (Suc idx) (bufs @ [(length (memory s), 0)])
                    (spans @ [\<lparr>span_data = (length (memory s), 0), span_size = static_cast_size_t v\<rparr>])
                    (s\<lparr>memory := memory s @ [Some (zero_block (static_cast_size_t v))],
                       heap_used := heap_used s + static_cast_size_t v\<rparr>) of
               (r, evs, s') \<Rightarrow> (r, Log Info (SettingUpPlannedBuffer idx (static_cast_size_t v)) # evs, s'))
          else (Inl BadAlloc, [Log Info (SettingUpPlannedBuffer idx (static_cast_size_t v))],
                destroy_planned_buffers bufs s))"
  by (subst planned_buffers_loop.simps)
     (simp add: Result_get_def bind_ET_LOG bind_make_unique_array bind_make_unique_array_fail
        fail_apply Let_def split: sum.splits)

text \<open>
  The loop in closed form: when the metadata answers every id from \<open>idx\<close> on and the free
  store has room, the loop appends one buffer and one span per id, in id order, each a fresh
  block of zero bytes of the size the metadata gives.
\<close>

lemma planned_buffers_loop_run:
  assumes "\<forall>i. idx \<le> i \<and> i < num \<longrightarrow> ok (memory_planned_buffer_size meta i)"
      and "idx < num \<longrightarrow> heap_used s + (\<Sum>i = idx..<num. declared_size meta i) \<le> heap_limit s"
  shows "planned_buffers_loop meta num idx bufs spans s =
     (Inr (bufs @ map (\<lambda>i. (length (memory s) + (i - idx), 0)) [idx..<num],
           spans @ map (\<lambda>i. \<lparr>span_data = (length (memory s) + (i - idx), 0),
                               span_size = declared_size meta i\<rparr>) [idx..<num]),
      map (\<lambda>i. Log Info (SettingUpPlannedBuffer i (declared_size meta i))) [idx..<num],
      s\<lparr>memory := memory s @ map (\<lambda>i. Some (zero_block (declared_size meta i))) [idx..<num],
        heap_used := heap_used s + (\<Sum>i = idx..<num. declared_size meta i)\<rparr>)"
  using assms
proof (induction "num - idx" arbitrary: idx bufs spans s)
  case 0
  then show ?case
    by (simp add: planned_buffers_loop_done)
next
  case (Suc k)
  then have lt: "idx < num" and k: "k = num - Suc idx" by simp_all
  from Suc.prems(1) lt obtain v where v: "memory_planned_buffer_size meta idx = Inr v"
    by (cases "memory_planned_buffer_size meta idx") (auto simp: ok_def)
  let ?n = "declared_size meta idx"
  have n: "static_cast_size_t v = ?n"
    using v by (simp add: declared_size_def)
  let ?s = "s\<lparr>memory := memory s @ [Some (zero_block ?n)], heap_used := heap_used s + ?n\<rparr>"
  have sum: "(\<Sum>i = idx..<num. declared_size meta i) = ?n + (\<Sum>i = Suc idx..<num. declared_size meta i)"
    using lt by (simp add: sum.atLeast_Suc_lessThan)
  have room: "heap_used s + ?n \<le> heap_limit s"
    using Suc.prems(2) lt sum by simp
  have pre1: "\<forall>i. Suc idx \<le> i \<and> i < num \<longrightarrow> ok (memory_planned_buffer_size meta i)"
    using Suc.prems(1) by simp
  have pre2: "Suc idx < num \<longrightarrow> heap_used ?s + (\<Sum>i = Suc idx..<num. declared_size meta i) \<le> heap_limit ?s"
    using Suc.prems(2) lt sum by simp
  have shift: "\<And>i. i \<in> set [Suc idx..<num] \<Longrightarrow> Suc (length (memory s) + (i - Suc idx)) = length (memory s) + (i - idx)"
    by auto
  have step: "planned_buffers_loop meta num idx bufs spans s =
     (case planned_buffers_loop meta num (Suc idx) (bufs @ [(length (memory s), 0)])
             (spans @ [\<lparr>span_data = (length (memory s), 0), span_size = ?n\<rparr>]) ?s of
        (r, evs, s') \<Rightarrow> (r, Log Info (SettingUpPlannedBuffer idx ?n) # evs, s'))"
    using room by (simp add: planned_buffers_loop_step[OF lt] v n)
  show ?case
    unfolding step Suc.hyps(1)[OF k pre1 pre2]
    using lt shift
    by (simp add: upt_conv_Cons sum cong: map_cong)
qed

text \<open>Conversely, a loop that returns had every answer and the room.\<close>

lemma planned_buffers_loop_returns:
  assumes "planned_buffers_loop meta num idx bufs spans s = (Inr r, evs, s')"
  shows "(\<forall>i. idx \<le> i \<and> i < num \<longrightarrow> ok (memory_planned_buffer_size meta i)) \<and>
         (idx < num \<longrightarrow> heap_used s + (\<Sum>i = idx..<num. declared_size meta i) \<le> heap_limit s)"
  using assms
proof (induction "num - idx" arbitrary: idx bufs spans s evs)
  case 0
  then show ?case by auto
next
  case (Suc k)
  then have lt: "idx < num" and k: "k = num - Suc idx" by simp_all
  from Suc.prems lt obtain v where
    v: "memory_planned_buffer_size meta idx = Inr v"
    by (cases "memory_planned_buffer_size meta idx") (simp_all add: planned_buffers_loop_step)
  let ?n = "static_cast_size_t v"
  let ?s = "s\<lparr>memory := memory s @ [Some (zero_block ?n)], heap_used := heap_used s + ?n\<rparr>"
  from Suc.prems lt v have room: "heap_used s + ?n \<le> heap_limit s"
    by (simp add: planned_buffers_loop_step split: if_splits)
  from Suc.prems lt v room obtain evs' where
    rec: "planned_buffers_loop meta num (Suc idx) (bufs @ [(length (memory s), 0)])
            (spans @ [\<lparr>span_data = (length (memory s), 0), span_size = ?n\<rparr>]) ?s = (Inr r, evs', s')"
    by (auto simp: planned_buffers_loop_step split: prod.splits)
  from Suc.hyps(1)[OF k rec] have
    ih1: "\<forall>i. Suc idx \<le> i \<and> i < num \<longrightarrow> ok (memory_planned_buffer_size meta i)" and
    ih2: "Suc idx < num \<longrightarrow> heap_used ?s + (\<Sum>i = Suc idx..<num. declared_size meta i) \<le> heap_limit ?s"
    by simp_all
  have oks: "\<forall>i. idx \<le> i \<and> i < num \<longrightarrow> ok (memory_planned_buffer_size meta i)"
  proof (intro allI impI)
    fix i assume "idx \<le> i \<and> i < num"
    then show "ok (memory_planned_buffer_size meta i)"
      using ih1 v by (cases "i = idx") (simp_all add: ok_def)
  qed
  have sum: "(\<Sum>i = idx..<num. declared_size meta i) = ?n + (\<Sum>i = Suc idx..<num. declared_size meta i)"
    using lt v by (simp add: sum.atLeast_Suc_lessThan declared_size_def)
  have "heap_used s + (\<Sum>i = idx..<num. declared_size meta i) \<le> heap_limit s"
  proof (cases "Suc idx < num")
    case True
    with ih2 sum show ?thesis by simp
  next
    case False
    with sum room show ?thesis by simp
  qed
  with oks show ?case by simp
qed

text \<open>Whatever the outcome, the loop only logs, keeps the budget, and leaves the static pool
  in place.\<close>

lemma planned_buffers_loop_frame:
  assumes "planned_buffers_loop meta num idx bufs spans s = (r, evs, s')"
  shows "(\<forall>e \<in> set evs. \<exists>i n. e = Log Info (SettingUpPlannedBuffer i n)) \<and>
         heap_limit s' = heap_limit s \<and>
         (pool_present s \<and> (\<forall>p \<in> set bufs. fst p \<noteq> 0) \<longrightarrow> pool_present s')"
  using assms
proof (induction "num - idx" arbitrary: idx bufs spans s evs r s')
  case 0
  then show ?case by (simp add: planned_buffers_loop_done)
next
  case (Suc k)
  then have lt: "idx < num" and k: "k = num - Suc idx" by simp_all
  show ?case
  proof (cases "memory_planned_buffer_size meta idx")
    case (Inl e)
    with Suc.prems lt show ?thesis by (simp add: planned_buffers_loop_step)
  next
    case (Inr v)
    let ?n = "static_cast_size_t v"
    let ?s = "s\<lparr>memory := memory s @ [Some (zero_block ?n)], heap_used := heap_used s + ?n\<rparr>"
    show ?thesis
    proof (cases "heap_used s + ?n \<le> heap_limit s")
      case False
      with Suc.prems lt Inr show ?thesis
        by (auto simp: planned_buffers_loop_step pool_present_destroy)
    next
      case True
      obtain r' evs' s'' where
        rec: "planned_buffers_loop meta num (Suc idx) (bufs @ [(length (memory s), 0)])
                (spans @ [\<lparr>span_data = (length (memory s), 0), span_size = ?n\<rparr>]) ?s = (r', evs', s'')"
        by (metis prod_cases3)
      with Suc.prems lt Inr True have eq: "evs = Log Info (SettingUpPlannedBuffer idx ?n) # evs'" "s' = s''"
        by (simp_all add: planned_buffers_loop_step)
      note ih = Suc.hyps(1)[OF k rec]
      have pool: "pool_present s \<and> (\<forall>p \<in> set bufs. fst p \<noteq> 0) \<longrightarrow> pool_present s''"
      proof
        assume a: "pool_present s \<and> (\<forall>p \<in> set bufs. fst p \<noteq> 0)"
        then have "0 < length (memory s)"
          by (cases "memory s") (simp_all add: pool_present_def)
        moreover have "pool_present ?s"
          using a by (intro pool_present_append[of s ?s]) simp_all
        ultimately show "pool_present s''"
          using ih a by simp
      qed
      from ih eq pool show ?thesis by auto
    qed
  qed
qed

lemma assemble_memory_manager_run:
  assumes "\<forall>i < num_memory_planned_buffers meta. ok (memory_planned_buffer_size meta i)"
      and "0 < num_memory_planned_buffers meta \<longrightarrow>
           heap_used s + (\<Sum>i = 0..<num_memory_planned_buffers meta. declared_size meta i) \<le> heap_limit s"
  shows "assemble_memory_manager meta s =
     (Inr (map (\<lambda>i. (length (memory s) + i, 0)) [0..<num_memory_planned_buffers meta],
           \<lparr>mm_method_allocator = method_allocator_ctor,
            mm_planned_memory = HierarchicalAllocator
              (map (\<lambda>i. \<lparr>span_data = (length (memory s) + i, 0),
                           span_size = declared_size meta i\<rparr>) [0..<num_memory_planned_buffers meta])\<rparr>),
      map (\<lambda>i. Log Info (SettingUpPlannedBuffer i (declared_size meta i))) [0..<num_memory_planned_buffers meta],
      s\<lparr>memory := memory s @ map (\<lambda>i. Some (zero_block (declared_size meta i))) [0..<num_memory_planned_buffers meta],
        heap_used := heap_used s + (\<Sum>i = 0..<num_memory_planned_buffers meta. declared_size meta i)\<rparr>)"
proof -
  have a: "\<forall>i. 0 \<le> i \<and> i < num_memory_planned_buffers meta \<longrightarrow> ok (memory_planned_buffer_size meta i)"
    using assms(1) by simp
  show ?thesis
    unfolding assemble_memory_manager_def Let_def
    by (simp add: bind_def planned_buffers_loop_run[OF a assms(2)] ret_apply)
qed

lemma assemble_memory_manager_loop:
  "assemble_memory_manager meta s =
     (case planned_buffers_loop meta (num_memory_planned_buffers meta) 0 [] [] s of
        (Inl e, evs, s') \<Rightarrow> (Inl e, evs, s')
      | (Inr (planned_buffers, planned_spans), evs, s') \<Rightarrow>
          (Inr (planned_buffers,
                \<lparr>mm_method_allocator = method_allocator_ctor,
                 mm_planned_memory = HierarchicalAllocator planned_spans\<rparr>), evs, s'))"
  by (simp add: assemble_memory_manager_def bind_def ret_apply Let_def split: prod.splits sum.splits)

lemma assemble_memory_manager_returns:
  assumes "assemble_memory_manager meta s = (Inr r, evs, s')"
  shows "(\<forall>i < num_memory_planned_buffers meta. ok (memory_planned_buffer_size meta i)) \<and>
         (0 < num_memory_planned_buffers meta \<longrightarrow>
           heap_used s + (\<Sum>i = 0..<num_memory_planned_buffers meta. declared_size meta i) \<le> heap_limit s)"
proof -
  from assms obtain r' where
    "planned_buffers_loop meta (num_memory_planned_buffers meta) 0 [] [] s = (Inr r', evs, s')"
    by (auto simp: assemble_memory_manager_loop split: prod.splits sum.splits)
  from planned_buffers_loop_returns[OF this] show ?thesis by simp
qed

lemma assemble_memory_manager_frame:
  assumes "assemble_memory_manager meta s = (r, evs, s')"
  shows "(\<forall>e \<in> set evs. \<exists>i n. e = Log Info (SettingUpPlannedBuffer i n)) \<and>
         heap_limit s' = heap_limit s \<and> (pool_present s \<longrightarrow> pool_present s')"
proof -
  from assms obtain r' where
    "planned_buffers_loop meta (num_memory_planned_buffers meta) 0 [] [] s = (r', evs, s')"
    by (auto simp: assemble_memory_manager_loop split: prod.splits sum.splits)
  from planned_buffers_loop_frame[OF this] show ?thesis by simp
qed

lemma load_store_other:
  assumes "store_byte s p v = Some s'" and "q \<noteq> p"
  shows "load_byte s' q = load_byte s q"
proof -
  obtain b off where p: "p = (b, off)" by (cases p)
  obtain c off' where q: "q = (c, off')" by (cases q)
  from assms(1) p obtain blk where
    b: "b < length (memory s)" and blk: "memory s ! b = Some blk" and off: "off < block_size blk" and
    s': "s' = s\<lparr>memory := (memory s)[b := Some (blk\<lparr>block_bytes := (block_bytes blk)(off := v)\<rparr>)]\<rparr>"
    by (auto simp: store_byte_def split: if_splits option.splits)
  show ?thesis
  proof (cases "c = b")
    case True
    with assms(2) p q have "off' \<noteq> off" by simp
    with True b blk show ?thesis by (simp add: load_byte_def q s')
  next
    case False
    then show ?thesis by (simp add: load_byte_def q s')
  qed
qed

lemma example_assemble:
  "assemble_memory_manager example_meta (process_start 4096) =
     (Inr (example_buffers, example_manager),
      [Log Info (SettingUpPlannedBuffer 0 1024), Log Info (SettingUpPlannedBuffer 1 2048)],
      example_after)"
  by (simp add: assemble_memory_manager_loop planned_buffers_loop_step planned_buffers_loop_done
        example_meta_def process_start_def example_buffers_def example_manager_def example_after_def
        static_cast_size_t_def)

lemma static_cast_size_t_id: "0 \<le> v \<Longrightarrow> v < 2 ^ 64 \<Longrightarrow> int (static_cast_size_t v) = v"
  by (simp add: static_cast_size_t_def)

text \<open>
  C1. For a method metadata that reports \<open>k\<close> planned buffers and a size in bytes for each
  id below \<open>k\<close> (and a free store with room for them), the construction produces exactly
  \<open>k\<close> regions; the region at position \<open>id\<close> has the capacity the metadata gives for
  \<open>id\<close>, its span points at the buffer made for \<open>id\<close>, and the spans reach the
  \<^verbatim>\<open>HierarchicalAllocator\<close> in id order, as the order of the log lines shows.
\<close>

theorem planned_buffers_match_metadata:
  assumes "\<forall>i < num_memory_planned_buffers meta.
             memory_planned_buffer_size meta i = Inr (sz i) \<and> 0 \<le> sz i \<and> sz i < 2 ^ 64"
      and "int (heap_used s) + (\<Sum>i = 0..<num_memory_planned_buffers meta. sz i) \<le> int (heap_limit s)"
  shows "\<exists>planned_buffers memory_manager evs s'.
           assemble_memory_manager meta s = (Inr (planned_buffers, memory_manager), evs, s') \<and>
           length planned_buffers = num_memory_planned_buffers meta \<and>
           length (buffers (mm_planned_memory memory_manager)) = num_memory_planned_buffers meta \<and>
           (\<forall>i < num_memory_planned_buffers meta.
              int (span_size (buffers (mm_planned_memory memory_manager) ! i)) = sz i \<and>
              span_data (buffers (mm_planned_memory memory_manager) ! i) = planned_buffers ! i \<and>
              snd (planned_buffers ! i) = 0 \<and>
              fst (planned_buffers ! i) < length (memory s') \<and>
              (\<exists>blk. memory s' ! fst (planned_buffers ! i) = Some blk \<and> int (block_size blk) = sz i)) \<and>
           evs = map (\<lambda>i. Log Info (SettingUpPlannedBuffer i (nat (sz i)))) [0..<num_memory_planned_buffers meta]"
proof -
  let ?k = "num_memory_planned_buffers meta"
  have cast: "\<And>i. i < ?k \<Longrightarrow> declared_size meta i = nat (sz i)"
    using assms(1) by (simp add: declared_size_def static_cast_size_t_def)
  have a: "\<forall>i < ?k. ok (memory_planned_buffer_size meta i)"
    using assms(1) by (simp add: ok_def)
  have "(\<Sum>i = 0..<?k. int (declared_size meta i)) = (\<Sum>i = 0..<?k. sz i)"
    using assms(1) by (intro sum.cong) (simp_all add: cast)
  then have b: "0 < ?k \<longrightarrow> heap_used s + (\<Sum>i = 0..<?k. declared_size meta i) \<le> heap_limit s"
    using assms(2) by (simp flip: of_nat_sum of_nat_add)
  let ?pb = "map (\<lambda>i. (length (memory s) + i, 0)) [0..<?k]"
  let ?spans = "map (\<lambda>i. \<lparr>span_data = (length (memory s) + i, 0),
                             span_size = declared_size meta i\<rparr>) [0..<?k]"
  let ?mm = "\<lparr>mm_method_allocator = method_allocator_ctor,
              mm_planned_memory = HierarchicalAllocator ?spans\<rparr>"
  let ?evs = "map (\<lambda>i. Log Info (SettingUpPlannedBuffer i (declared_size meta i))) [0..<?k]"
  let ?s' = "s\<lparr>memory := memory s @ map (\<lambda>i. Some (zero_block (declared_size meta i))) [0..<?k],
               heap_used := heap_used s + (\<Sum>i = 0..<?k. declared_size meta i)\<rparr>"
  have run: "assemble_memory_manager meta s = (Inr (?pb, ?mm), ?evs, ?s')"
    by (rule assemble_memory_manager_run[OF a b])
  have regions: "\<forall>i < ?k.
      int (span_size (buffers (mm_planned_memory ?mm) ! i)) = sz i \<and>
      span_data (buffers (mm_planned_memory ?mm) ! i) = ?pb ! i \<and>
      snd (?pb ! i) = 0 \<and>
      fst (?pb ! i) < length (memory ?s') \<and>
      (\<exists>blk. memory ?s' ! fst (?pb ! i) = Some blk \<and> int (block_size blk) = sz i)"
  proof (intro allI impI)
    fix i assume i: "i < ?k"
    then have "0 \<le> sz i" using assms(1) by simp
    then show "int (span_size (buffers (mm_planned_memory ?mm) ! i)) = sz i \<and>
      span_data (buffers (mm_planned_memory ?mm) ! i) = ?pb ! i \<and>
      snd (?pb ! i) = 0 \<and>
      fst (?pb ! i) < length (memory ?s') \<and>
      (\<exists>blk. memory ?s' ! fst (?pb ! i) = Some blk \<and> int (block_size blk) = sz i)"
      using i by (simp add: cast zero_block_def)
  qed
  have evs: "?evs = map (\<lambda>i. Log Info (SettingUpPlannedBuffer i (nat (sz i)))) [0..<?k]"
    by (simp add: cast)
  show ?thesis
    using run regions evs
    by (intro exI[of _ ?pb] exI[of _ ?mm] exI[of _ ?evs] exI[of _ ?s'] conjI) simp_all
qed

theorem planned_buffers_match_metadata_witness:
  "\<exists>planned_buffers memory_manager evs s'.
     assemble_memory_manager example_meta (process_start 4096) =
       (Inr (planned_buffers, memory_manager), evs, s') \<and>
     map span_size (buffers (mm_planned_memory memory_manager)) = [1024, 2048]"
proof -
  have h1: "\<forall>i < num_memory_planned_buffers example_meta.
             memory_planned_buffer_size example_meta i = Inr (example_sizes i) \<and>
             0 \<le> example_sizes i \<and> example_sizes i < 2 ^ 64"
    by (simp add: example_meta_def example_sizes_def)
  have h2: "int (heap_used (process_start 4096)) +
            (\<Sum>i = 0..<num_memory_planned_buffers example_meta. example_sizes i)
            \<le> int (heap_limit (process_start 4096))"
    by (simp add: example_meta_def example_sizes_def process_start_def numeral_2_eq_2)
  from planned_buffers_match_metadata[OF h1 h2]
  obtain planned_buffers memory_manager evs s' where
    r: "assemble_memory_manager example_meta (process_start 4096) = (Inr (planned_buffers, memory_manager), evs, s')"
    and l2: "length (buffers (mm_planned_memory memory_manager)) = num_memory_planned_buffers example_meta"
    and p: "\<forall>i < num_memory_planned_buffers example_meta.
              int (span_size (buffers (mm_planned_memory memory_manager) ! i)) = example_sizes i \<and>
              span_data (buffers (mm_planned_memory memory_manager) ! i) = planned_buffers ! i \<and>
              snd (planned_buffers ! i) = 0 \<and>
              fst (planned_buffers ! i) < length (memory s') \<and>
              (\<exists>blk. memory s' ! fst (planned_buffers ! i) = Some blk \<and> int (block_size blk) = example_sizes i)"
    by blast
  have sizes: "map span_size (buffers (mm_planned_memory memory_manager)) = [1024, 2048]"
  proof (rule nth_equalityI)
    show "length (map span_size (buffers (mm_planned_memory memory_manager))) = length [1024, 2048 :: nat]"
      using l2 by (simp add: example_meta_def)
  next
    fix i assume "i < length (map span_size (buffers (mm_planned_memory memory_manager)))"
    then have i: "i < 2" using l2 by (simp add: example_meta_def)
    then have "int (span_size (buffers (mm_planned_memory memory_manager) ! i)) = example_sizes i"
      using p by (simp add: example_meta_def)
    then show "map span_size (buffers (mm_planned_memory memory_manager)) ! i = [1024, 2048] ! i"
      using i l2 by (cases i) (auto simp: example_meta_def example_sizes_def less_Suc_eq numeral_2_eq_2)
  qed
  from r sizes show ?thesis
    by (intro exI[of _ planned_buffers] exI[of _ memory_manager] exI[of _ evs] exI[of _ s'] conjI)
qed

section \<open>The planned buffers start zeroed\<close>

text \<open>
  C9. Right after the construction, before the method is bound, every byte of every planned
  buffer reads zero: \<^verbatim>\<open>std::make_unique<uint8_t[]>(n)\<close> value-initialises the array, and
  the later iterations of the loop leave the earlier arrays alone.
\<close>

theorem planned_buffers_start_zeroed:
  assumes "assemble_memory_manager meta s = (Inr (planned_buffers, memory_manager), evs, s')"
  shows "length (buffers (mm_planned_memory memory_manager)) = num_memory_planned_buffers meta \<and>
         (\<forall>i < num_memory_planned_buffers meta.
            \<forall>off < span_size (buffers (mm_planned_memory memory_manager) ! i).
              load_byte s' (fst (span_data (buffers (mm_planned_memory memory_manager) ! i)),
                            snd (span_data (buffers (mm_planned_memory memory_manager) ! i)) + off) = Some 0)"
proof -
  note pre = assemble_memory_manager_returns[OF assms]
  note run = assemble_memory_manager_run[OF pre[THEN conjunct1] pre[THEN conjunct2]]
  from assms run have
    mm: "memory_manager = \<lparr>mm_method_allocator = method_allocator_ctor,
            mm_planned_memory = HierarchicalAllocator
              (map (\<lambda>i. \<lparr>span_data = (length (memory s) + i, 0),
                           span_size = declared_size meta i\<rparr>) [0..<num_memory_planned_buffers meta])\<rparr>"
    and s': "s' = s\<lparr>memory := memory s @ map (\<lambda>i. Some (zero_block (declared_size meta i))) [0..<num_memory_planned_buffers meta],
        heap_used := heap_used s + (\<Sum>i = 0..<num_memory_planned_buffers meta. declared_size meta i)\<rparr>"
    by simp_all
  show ?thesis
    by (simp add: mm s' load_byte_def zero_block_def)
qed


theorem planned_buffers_start_zeroed_witness:
  "load_byte example_after (2, 2047) = Some 0"
  using planned_buffers_start_zeroed[OF example_assemble, THEN conjunct2, rule_format, of 1 2047]
  by (simp add: example_meta_def example_manager_def)


section \<open>The arena and the planned buffers do not overlap\<close>

text \<open>
  C3. The region of the metadata arena and the regions of the planned buffers have pairwise
  disjoint address ranges; so a byte written inside the arena leaves every byte of every
  planned buffer as it was, and a byte written inside a planned buffer leaves every byte of
  the arena as it was.
\<close>

theorem arena_and_planned_buffers_disjoint:
  assumes "pool_present s"
      and "assemble_memory_manager meta s = (Inr (planned_buffers, memory_manager), evs, s')"
  shows "(\<forall>i < length (buffers (mm_planned_memory memory_manager)).
            span_addresses (arena_span (mm_method_allocator memory_manager)) \<inter>
            span_addresses (buffers (mm_planned_memory memory_manager) ! i) = {}) \<and>
         (\<forall>i < length (buffers (mm_planned_memory memory_manager)).
          \<forall>j < length (buffers (mm_planned_memory memory_manager)). i \<noteq> j \<longrightarrow>
            span_addresses (buffers (mm_planned_memory memory_manager) ! i) \<inter>
            span_addresses (buffers (mm_planned_memory memory_manager) ! j) = {}) \<and>
         (\<forall>p \<in> span_addresses (arena_span (mm_method_allocator memory_manager)). \<forall>v s''.
            store_byte s' p v = Some s'' \<longrightarrow>
            (\<forall>i < length (buffers (mm_planned_memory memory_manager)).
             \<forall>q \<in> span_addresses (buffers (mm_planned_memory memory_manager) ! i).
               load_byte s'' q = load_byte s' q)) \<and>
         (\<forall>i < length (buffers (mm_planned_memory memory_manager)).
          \<forall>p \<in> span_addresses (buffers (mm_planned_memory memory_manager) ! i). \<forall>v s''.
            store_byte s' p v = Some s'' \<longrightarrow>
            (\<forall>q \<in> span_addresses (arena_span (mm_method_allocator memory_manager)).
               load_byte s'' q = load_byte s' q))"
proof -
  let ?k = "num_memory_planned_buffers meta"
  let ?spans = "buffers (mm_planned_memory memory_manager)"
  let ?arena = "arena_span (mm_method_allocator memory_manager)"
  note pre = assemble_memory_manager_returns[OF assms(2)]
  note run = assemble_memory_manager_run[OF pre[THEN conjunct1] pre[THEN conjunct2]]
  from assms(2) run have
    mm: "memory_manager = \<lparr>mm_method_allocator = method_allocator_ctor,
            mm_planned_memory = HierarchicalAllocator
              (map (\<lambda>i. \<lparr>span_data = (length (memory s) + i, 0),
                           span_size = declared_size meta i\<rparr>) [0..<?k])\<rparr>"
    by simp
  from assms(1) have nonempty: "0 < length (memory s)"
    by (cases "memory s") (simp_all add: pool_present_def)
  have len: "length ?spans = ?k" by (simp add: mm)
  have block: "\<And>i. i < ?k \<Longrightarrow> fst (span_data (?spans ! i)) = length (memory s) + i"
    by (simp add: mm)
  have arena_block: "fst (span_data ?arena) = 0"
    by (simp add: mm arena_span_def method_allocator_ctor_def enable_profiling_def
          MemoryAllocator_ctor_def method_allocator_pool_def)
  have d1: "\<forall>i < length ?spans. span_addresses ?arena \<inter> span_addresses (?spans ! i) = {}"
  proof (intro allI impI)
    fix i assume "i < length ?spans"
    then have "fst (span_data (?spans ! i)) \<noteq> fst (span_data ?arena)"
      using block[of i] arena_block nonempty len by simp
    then show "span_addresses ?arena \<inter> span_addresses (?spans ! i) = {}"
      by (auto simp: span_addresses_def)
  qed
  have d2: "\<forall>i < length ?spans. \<forall>j < length ?spans. i \<noteq> j \<longrightarrow>
              span_addresses (?spans ! i) \<inter> span_addresses (?spans ! j) = {}"
  proof (intro allI impI)
    fix i j assume "i < length ?spans" "j < length ?spans" "i \<noteq> j"
    then have "fst (span_data (?spans ! i)) \<noteq> fst (span_data (?spans ! j))"
      using block[of i] block[of j] len by simp
    then show "span_addresses (?spans ! i) \<inter> span_addresses (?spans ! j) = {}"
      by (auto simp: span_addresses_def)
  qed
  have f1: "\<forall>p \<in> span_addresses ?arena. \<forall>v s''. store_byte s' p v = Some s'' \<longrightarrow>
            (\<forall>i < length ?spans. \<forall>q \<in> span_addresses (?spans ! i). load_byte s'' q = load_byte s' q)"
  proof (intro ballI allI impI)
    fix p v s'' i q
    assume p: "p \<in> span_addresses ?arena" and st: "store_byte s' p v = Some s''"
      and i: "i < length ?spans" and q: "q \<in> span_addresses (?spans ! i)"
    from d1 i p q have "q \<noteq> p" by blast
    with st show "load_byte s'' q = load_byte s' q" by (rule load_store_other)
  qed
  have f2: "\<forall>i < length ?spans. \<forall>p \<in> span_addresses (?spans ! i). \<forall>v s''.
            store_byte s' p v = Some s'' \<longrightarrow>
            (\<forall>q \<in> span_addresses ?arena. load_byte s'' q = load_byte s' q)"
  proof (intro ballI allI impI)
    fix p v s'' i q
    assume q: "q \<in> span_addresses ?arena" and st: "store_byte s' p v = Some s''"
      and i: "i < length ?spans" and p: "p \<in> span_addresses (?spans ! i)"
    from d1 i p q have "q \<noteq> p" by blast
    with st show "load_byte s'' q = load_byte s' q" by (rule load_store_other)
  qed
  from d1 d2 f1 f2 show ?thesis by blast
qed

theorem arena_and_planned_buffers_disjoint_witness:
  "span_addresses (arena_span method_allocator_ctor) \<inter>
   span_addresses \<lparr>span_data = (1, 0), span_size = 1024\<rparr> = {}"
  using arena_and_planned_buffers_disjoint[OF pool_present_start example_assemble, THEN conjunct1,
          rule_format, of 0]
  by (simp add: example_manager_def)

section \<open>The metadata arena is bounded\<close>

lemma allocate_fits:
  "ma_cur a + n \<le> ma_size a \<Longrightarrow>
   allocate n a = (Inr \<lparr>span_data = (fst (ma_base a), snd (ma_base a) + ma_cur a), span_size = n\<rparr>,
                   a\<lparr>ma_cur := ma_cur a + n\<rparr>)"
  by (simp add: allocate_def)

lemma allocate_exceeds:
  "ma_size a < ma_cur a + n \<Longrightarrow> allocate n a = (Inl OutOfArenaSpace, a)"
  by (simp add: allocate_def)

lemma allocate_seq_append:
  "allocate_seq (xs @ ys) a =
     (case allocate_seq xs a of (rs, a') \<Rightarrow>
        (case allocate_seq ys a' of (rs', a'') \<Rightarrow> (rs @ rs', a'')))"
  by (induction xs arbitrary: a) (simp_all split: prod.splits)

lemma allocate_seq_fits:
  "ma_cur a + sum_list ns \<le> ma_size a \<Longrightarrow>
   allocate_seq ns a =
     (map (\<lambda>j. Inr \<lparr>span_data = (fst (ma_base a), snd (ma_base a) + ma_cur a + sum_list (take j ns)),
                     span_size = ns ! j\<rparr>) [0..<length ns],
      a\<lparr>ma_cur := ma_cur a + sum_list ns\<rparr>)"
proof (induction ns arbitrary: a)
  case Nil
  then show ?case by simp
next
  case (Cons n ns)
  let ?a = "a\<lparr>ma_cur := ma_cur a + n\<rparr>"
  have fit: "ma_cur a + n \<le> ma_size a" using Cons.prems by simp
  have rest: "ma_cur ?a + sum_list ns \<le> ma_size ?a" using Cons.prems by simp
  have "[0..<Suc (length ns)] = 0 # map Suc [0..<length ns]"
    by (metis map_Suc_upt upt_conv_Cons zero_less_Suc)
  then have idx: "[0..<length (n # ns)] = 0 # map Suc [0..<length ns]"
    by simp
  show ?case
    unfolding idx
    by (simp add: allocate_fits[OF fit] Cons.IH[OF rest] add.assoc o_def)
qed


lemma allocate_seq_length: "length (fst (allocate_seq ns a)) = length ns"
proof (induction ns arbitrary: a)
  case Nil
  then show ?case by simp
next
  case (Cons n ns)
  obtain r a1 where one: "allocate n a = (r, a1)" by (cases "allocate n a")
  obtain rs1 a2 where rest: "allocate_seq ns a1 = (rs1, a2)" by (cases "allocate_seq ns a1")
  from Cons.IH[of a1] rest have "length rs1 = length ns" by simp
  with one rest show ?case by simp
qed

lemma allocate_keeps:
  "allocate n a = (r, a') \<Longrightarrow>
   ma_base a' = ma_base a \<and> ma_size a' = ma_size a \<and> ma_profiling a' = ma_profiling a \<and>
   ma_cur a \<le> ma_cur a' \<and> (ma_cur a \<le> ma_size a \<longrightarrow> ma_cur a' \<le> ma_size a) \<and>
   (\<forall>sp. r = Inr sp \<longrightarrow>
      fst (span_data sp) = fst (ma_base a) \<and>
      snd (ma_base a) + ma_cur a \<le> snd (span_data sp) \<and>
      snd (span_data sp) + span_size sp \<le> snd (ma_base a) + ma_cur a')"
  by (auto simp: allocate_def split: if_splits)

lemma allocate_seq_keeps:
  "allocate_seq ns a = (rs, a') \<Longrightarrow>
   ma_base a' = ma_base a \<and> ma_size a' = ma_size a \<and> ma_profiling a' = ma_profiling a \<and>
   ma_cur a \<le> ma_cur a' \<and> (ma_cur a \<le> ma_size a \<longrightarrow> ma_cur a' \<le> ma_size a) \<and>
   (\<forall>sp. Inr sp \<in> set rs \<longrightarrow>
      fst (span_data sp) = fst (ma_base a) \<and>
      snd (ma_base a) + ma_cur a \<le> snd (span_data sp) \<and>
      snd (span_data sp) + span_size sp \<le> snd (ma_base a) + ma_cur a')"
proof (induction ns arbitrary: a rs a')
  case Nil
  then show ?case by simp
next
  case (Cons n ns)
  obtain r a1 where one: "allocate n a = (r, a1)" by (cases "allocate n a")
  obtain rs1 a2 where rest: "allocate_seq ns a1 = (rs1, a2)" by (cases "allocate_seq ns a1")
  from Cons.prems one rest have rs: "rs = r # rs1" and a': "a' = a2" by simp_all
  note k1 = allocate_keeps[OF one]
  note k2 = Cons.IH[OF rest]
  show ?case
    unfolding rs a'
    using k1 k2 by auto
qed

lemma allocate_seq_first_failure:
  assumes "i < length ns"
      and "ma_cur a + sum_list (take i ns) \<le> ma_size a"
      and "ma_size a < ma_cur a + sum_list (take (Suc i) ns)"
  shows "fst (allocate_seq ns a) ! i = Inl OutOfArenaSpace"
    and "\<forall>j < i. fst (allocate_seq ns a) ! j =
           Inr \<lparr>span_data = (fst (ma_base a), snd (ma_base a) + ma_cur a + sum_list (take j ns)),
                span_size = ns ! j\<rparr>"
    and "snd (allocate_seq (take i ns) a) = a\<lparr>ma_cur := ma_cur a + sum_list (take i ns)\<rparr>"
    and "snd (allocate_seq (take (Suc i) ns) a) = snd (allocate_seq (take i ns) a)"
proof -
  let ?a = "a\<lparr>ma_cur := ma_cur a + sum_list (take i ns)\<rparr>"
  let ?pre = "map (\<lambda>j. Inr \<lparr>span_data = (fst (ma_base a), snd (ma_base a) + ma_cur a + sum_list (take j ns)),
                              span_size = ns ! j\<rparr>) [0..<i]"
  have len: "length (take i ns) = i" using assms(1) by simp
  have "allocate_seq (take i ns) a =
          (map (\<lambda>j. Inr \<lparr>span_data = (fst (ma_base a),
                            snd (ma_base a) + ma_cur a + sum_list (take j (take i ns))),
                          span_size = take i ns ! j\<rparr>) [0..<length (take i ns)], ?a)"
    by (rule allocate_seq_fits[OF assms(2)])
  also have "map (\<lambda>j. Inr \<lparr>span_data = (fst (ma_base a),
                            snd (ma_base a) + ma_cur a + sum_list (take j (take i ns))),
                          span_size = take i ns ! j\<rparr>) [0..<length (take i ns)] = ?pre"
    unfolding len by (rule map_cong) (simp_all add: min_def)
  finally have pre: "allocate_seq (take i ns) a = (?pre, ?a)" .
  have split: "take (Suc i) ns = take i ns @ [ns ! i]"
    using assms(1) by (simp add: take_Suc_conv_app_nth)
  have "sum_list (take (Suc i) ns) = sum_list (take i ns) + ns ! i"
    by (simp add: split)
  with assms(3) have over: "ma_size ?a < ma_cur ?a + ns ! i" by simp
  have one: "allocate (ns ! i) ?a = (Inl OutOfArenaSpace, ?a)"
    by (rule allocate_exceeds[OF over])
  obtain rs' a'' where rest: "allocate_seq (drop (Suc i) ns) ?a = (rs', a'')"
    by (cases "allocate_seq (drop (Suc i) ns) ?a")
  have ns: "ns = take i ns @ ns ! i # drop (Suc i) ns"
    using assms(1) by (simp add: id_take_nth_drop[symmetric])
  have whole: "fst (allocate_seq ns a) = ?pre @ Inl OutOfArenaSpace # rs'"
    by (subst ns, simp only: allocate_seq_append pre) (simp add: one rest)
  show "fst (allocate_seq ns a) ! i = Inl OutOfArenaSpace"
    unfolding whole by (simp add: nth_append)
  show "\<forall>j < i. fst (allocate_seq ns a) ! j =
           Inr \<lparr>span_data = (fst (ma_base a), snd (ma_base a) + ma_cur a + sum_list (take j ns)),
                span_size = ns ! j\<rparr>"
    unfolding whole by (simp add: nth_append)
  show "snd (allocate_seq (take i ns) a) = ?a"
    by (simp add: pre)
  show "snd (allocate_seq (take (Suc i) ns) a) = snd (allocate_seq (take i ns) a)"
    unfolding split by (simp only: allocate_seq_append pre) (simp add: one)
qed


lemma allocate_seq_disjoint:
  assumes "i < j" and "j < length ns"
      and "fst (allocate_seq ns a) ! i = Inr sp" and "fst (allocate_seq ns a) ! j = Inr sp'"
  shows "span_addresses sp \<inter> span_addresses sp' = {}"
proof -
  obtain rs1 a1 where first: "allocate_seq (take j ns) a = (rs1, a1)"
    by (cases "allocate_seq (take j ns) a")
  obtain rs2 a2 where second: "allocate_seq (drop j ns) a1 = (rs2, a2)"
    by (cases "allocate_seq (drop j ns) a1")
  have "allocate_seq (take j ns @ drop j ns) a = (rs1 @ rs2, a2)"
    by (simp only: allocate_seq_append first) (simp add: second)
  then have whole: "fst (allocate_seq ns a) = rs1 @ rs2" by simp
  have l1: "length rs1 = j"
    using allocate_seq_length[of "take j ns" a] first assms(2) by simp
  have l2: "0 < length rs2"
    using allocate_seq_length[of "drop j ns" a1] second assms(2) by simp
  from assms(3) whole l1 assms(1) have "Inr sp \<in> set rs1"
    by (metis nth_append nth_mem)
  with allocate_seq_keeps[OF first] have
    e1: "fst (span_data sp) = fst (ma_base a)" "snd (span_data sp) + span_size sp \<le> snd (ma_base a) + ma_cur a1"
    by simp_all
  from assms(4) whole l1 l2 have "Inr sp' \<in> set rs2"
    by (metis cancel_comm_monoid_add_class.diff_cancel less_irrefl nth_append nth_mem)
  with allocate_seq_keeps[OF second] allocate_seq_keeps[OF first] have
    e2: "snd (ma_base a) + ma_cur a1 \<le> snd (span_data sp')"
    by simp
  from e1 e2 show ?thesis
    by (auto simp: span_addresses_def)
qed

text \<open>
  C4. A sequence of requests \<open>ns\<close> against a fresh arena of capacity \<open>C\<close>: when the total
  is at most \<open>C\<close> every request succeeds; the first request that would cross \<open>C\<close> fails
  with \<open>OutOfArenaSpace\<close>, the requests before it got their regions, and the failure leaves
  the arena as it was (nothing is rolled back). Every region handed out lies inside the arena
  (none comes from anywhere else), regions handed out do not overlap, and the arena's base and
  capacity stay what they were.
\<close>

theorem arena_allocation_bounded:
  "(sum_list ns \<le> C \<longrightarrow>
      (\<forall>r \<in> set (fst (allocate_seq ns (MemoryAllocator_ctor C base))). \<exists>sp. r = Inr sp)) \<and>
   (\<forall>i < length ns. sum_list (take i ns) \<le> C \<and> C < sum_list (take (Suc i) ns) \<longrightarrow>
      fst (allocate_seq ns (MemoryAllocator_ctor C base)) ! i = Inl OutOfArenaSpace \<and>
      (\<forall>j < i. fst (allocate_seq ns (MemoryAllocator_ctor C base)) ! j =
         Inr \<lparr>span_data = (fst base, snd base + sum_list (take j ns)), span_size = ns ! j\<rparr>) \<and>
      snd (allocate_seq (take (Suc i) ns) (MemoryAllocator_ctor C base)) =
        snd (allocate_seq (take i ns) (MemoryAllocator_ctor C base)) \<and>
      ma_cur (snd (allocate_seq (take i ns) (MemoryAllocator_ctor C base))) = sum_list (take i ns)) \<and>
   (\<forall>sp. Inr sp \<in> set (fst (allocate_seq ns (MemoryAllocator_ctor C base))) \<longrightarrow>
      span_addresses sp \<subseteq> span_addresses (arena_span (MemoryAllocator_ctor C base))) \<and>
   (\<forall>i j sp sp'. i < j \<and> j < length ns \<and>
      fst (allocate_seq ns (MemoryAllocator_ctor C base)) ! i = Inr sp \<and>
      fst (allocate_seq ns (MemoryAllocator_ctor C base)) ! j = Inr sp' \<longrightarrow>
      span_addresses sp \<inter> span_addresses sp' = {}) \<and>
   ma_cur (snd (allocate_seq ns (MemoryAllocator_ctor C base))) \<le> C \<and>
   ma_base (snd (allocate_seq ns (MemoryAllocator_ctor C base))) = base \<and>
   ma_size (snd (allocate_seq ns (MemoryAllocator_ctor C base))) = C"
proof -
  let ?a = "MemoryAllocator_ctor C base"
  have a: "ma_cur ?a = 0" "ma_size ?a = C" "ma_base ?a = base"
    by (simp_all add: MemoryAllocator_ctor_def)
  obtain rs a' where run: "allocate_seq ns ?a = (rs, a')" by (cases "allocate_seq ns ?a")
  note keeps = allocate_seq_keeps[OF run]
  have p1: "sum_list ns \<le> C \<longrightarrow> (\<forall>r \<in> set (fst (allocate_seq ns ?a)). \<exists>sp. r = Inr sp)"
  proof
    assume "sum_list ns \<le> C"
    then have "ma_cur ?a + sum_list ns \<le> ma_size ?a" by (simp add: a)
    from allocate_seq_fits[OF this] show "\<forall>r \<in> set (fst (allocate_seq ns ?a)). \<exists>sp. r = Inr sp"
      by auto
  qed
  have p2: "\<forall>i < length ns. sum_list (take i ns) \<le> C \<and> C < sum_list (take (Suc i) ns) \<longrightarrow>
      fst (allocate_seq ns ?a) ! i = Inl OutOfArenaSpace \<and>
      (\<forall>j < i. fst (allocate_seq ns ?a) ! j =
         Inr \<lparr>span_data = (fst base, snd base + sum_list (take j ns)), span_size = ns ! j\<rparr>) \<and>
      snd (allocate_seq (take (Suc i) ns) ?a) = snd (allocate_seq (take i ns) ?a) \<and>
      ma_cur (snd (allocate_seq (take i ns) ?a)) = sum_list (take i ns)"
  proof (intro allI impI)
    fix i assume i: "i < length ns" and c: "sum_list (take i ns) \<le> C \<and> C < sum_list (take (Suc i) ns)"
    have h1: "ma_cur ?a + sum_list (take i ns) \<le> ma_size ?a" using c by (simp add: a)
    have h2: "ma_size ?a < ma_cur ?a + sum_list (take (Suc i) ns)" using c by (simp add: a)
    note ff = allocate_seq_first_failure[OF i h1 h2]
    show "fst (allocate_seq ns ?a) ! i = Inl OutOfArenaSpace \<and>
      (\<forall>j < i. fst (allocate_seq ns ?a) ! j =
         Inr \<lparr>span_data = (fst base, snd base + sum_list (take j ns)), span_size = ns ! j\<rparr>) \<and>
      snd (allocate_seq (take (Suc i) ns) ?a) = snd (allocate_seq (take i ns) ?a) \<and>
      ma_cur (snd (allocate_seq (take i ns) ?a)) = sum_list (take i ns)"
      using ff by (simp add: a)
  qed
  have p3: "\<forall>sp. Inr sp \<in> set (fst (allocate_seq ns ?a)) \<longrightarrow>
      span_addresses sp \<subseteq> span_addresses (arena_span ?a)"
  proof (intro allI impI)
    fix sp assume "Inr sp \<in> set (fst (allocate_seq ns ?a))"
    with run keeps have
      "fst (span_data sp) = fst base" "snd base \<le> snd (span_data sp)"
      "snd (span_data sp) + span_size sp \<le> snd base + ma_cur a'" "ma_cur a' \<le> C"
      by (simp_all add: a)
    then show "span_addresses sp \<subseteq> span_addresses (arena_span ?a)"
      by (auto simp: span_addresses_def arena_span_def a)
  qed
  have p4: "\<forall>i j sp sp'. i < j \<and> j < length ns \<and>
      fst (allocate_seq ns ?a) ! i = Inr sp \<and> fst (allocate_seq ns ?a) ! j = Inr sp' \<longrightarrow>
      span_addresses sp \<inter> span_addresses sp' = {}"
    using allocate_seq_disjoint by blast
  have p5: "ma_cur (snd (allocate_seq ns ?a)) \<le> C \<and> ma_base (snd (allocate_seq ns ?a)) = base \<and>
            ma_size (snd (allocate_seq ns ?a)) = C"
    using run keeps by (simp add: a)
  from p1 p2 p3 p4 p5 show ?thesis by blast
qed

theorem arena_allocation_bounded_witness:
  "fst (allocate_seq [8, 32] (MemoryAllocator_ctor 16 (0, 0))) ! 1 = Inl OutOfArenaSpace \<and>
   fst (allocate_seq [8, 32] (MemoryAllocator_ctor 16 (0, 0))) ! 0 = Inr \<lparr>span_data = (0, 0), span_size = 8\<rparr> \<and>
   ma_cur (snd (allocate_seq [8] (MemoryAllocator_ctor 16 (0, 0)))) = 8"
  using arena_allocation_bounded[of "[8, 32]" 16 "(0, 0)", THEN conjunct2, THEN conjunct1, rule_format, of 1]
  by simp

section \<open>The flow as a whole\<close>

lemma load_program_state: "snd (snd (load_program world model_path s)) = s"
  by (simp add: load_program_run split: sum.splits)

lemma first_method_state: "snd (snd (first_method program s)) = s"
  by (simp add: first_method_run split: sum.splits)

lemma load_and_execute_state: "snd (snd (load_and_execute program name mm s)) = s"
  by (simp add: load_and_execute_run split: sum.splits prod.splits)

lemma bind_apply:
  "bind m f s =
     (case m s of
        (Inl e, evs, s') \<Rightarrow> (Inl e, evs, s')
      | (Inr x, evs, s') \<Rightarrow> (case f x s' of (r, evs', s'') \<Rightarrow> (r, evs @ evs', s'')))"
  by (simp add: bind_def)

lemma load_execute_flow_run:
  "load_execute_flow world model_path s =
     (case load_program world model_path s of
        (Inl e, evs1, s1) \<Rightarrow> (Inl e, evs1, s)
      | (Inr program, evs1, s1) \<Rightarrow>
          (case first_method program s of
             (Inl e, evs2, s2) \<Rightarrow> (Inl e, evs1 @ evs2, s)
           | (Inr (program_value, method_name, meta), evs2, s2) \<Rightarrow>
               (case assemble_memory_manager meta s of
                  (Inl e, evs3, s3) \<Rightarrow> (Inl e, evs1 @ evs2 @ evs3, s3)
                | (Inr (planned_buffers, memory_manager), evs3, s3) \<Rightarrow>
                    (case load_and_execute program_value method_name memory_manager s3 of
                       (Inl e, evs4, s4) \<Rightarrow> (Inl e, evs1 @ evs2 @ evs3 @ evs4, s3)
                     | (Inr outputs, evs4, s4) \<Rightarrow>
                         (Inr (planned_buffers, outputs), evs1 @ evs2 @ evs3 @ evs4, s3)))))"
proof -
  obtain r1 evs1 where lp: "load_program world model_path s = (r1, evs1, s)"
    using load_program_state[of world model_path s] by (metis prod.collapse)
  show ?thesis
  proof (cases r1)
    case (Inl e)
    then show ?thesis by (simp add: load_execute_flow_def bind_apply lp)
  next
    case r1: (Inr program)
    obtain r2 evs2 where fm: "first_method program s = (r2, evs2, s)"
      using first_method_state[of program s] by (metis prod.collapse)
    show ?thesis
    proof (cases r2)
      case (Inl e)
      then show ?thesis by (simp add: load_execute_flow_def bind_apply lp r1 fm)
    next
      case r2: (Inr triple)
      obtain program_value method_name meta where triple: "triple = (program_value, method_name, meta)"
        by (cases triple)
      obtain r3 evs3 s3 where am: "assemble_memory_manager meta s = (r3, evs3, s3)"
        by (cases "assemble_memory_manager meta s")
      show ?thesis
      proof (cases r3)
        case (Inl e)
        then show ?thesis by (simp add: load_execute_flow_def bind_apply lp r1 fm r2 triple am)
      next
        case r3: (Inr pair)
        obtain planned_buffers memory_manager where pair: "pair = (planned_buffers, memory_manager)"
          by (cases pair)
        obtain r4 evs4 where le: "load_and_execute program_value method_name memory_manager s3 = (r4, evs4, s3)"
          using load_and_execute_state[of program_value method_name memory_manager s3]
          by (metis prod.collapse)
        show ?thesis
          by (cases r4) (simp_all add: load_execute_flow_def bind_apply lp r1 fm r2 triple am r3 pair le ret_apply)
      qed
    qed
  qed
qed

lemma bind_scope_exit: "bind (scope_exit planned_buffers) f s = f () (destroy_planned_buffers planned_buffers s)"
  by (simp add: bind_def scope_exit_def split: prod.splits)

lemma write_profile_run:
  "write_profile world path num_bytes s =
     (if fopen_opens world path
      then (Inr (), [Fopen path, WriteProfile path num_bytes, Fclose path], s)
      else (Inl (NullStreamAccess ''fwrite''), [Fopen path], s))"
  by (simp add: write_profile_def bind_emit emit_apply fail_apply)

text \<open>The events of the profile dump of \<^verbatim>\<open>main\<close>, and whether it gets through.\<close>

lemma main_run:
  "main world flags extra_args s =
     (if extra_args \<noteq> [] then (Inr 1, [RuntimeInit, Log Error (ExtraCommandlineArgs extra_args)], s)
      else
        (case load_execute_flow world (FLAGS_model_path flags) s of
           (Inl e, evs, s') \<Rightarrow> (Inl e, RuntimeInit # evs, s')
         | (Inr (planned_buffers, outputs), evs, s') \<Rightarrow>
             if prof_result_num_bytes world = 0 then
               (Inr 0, RuntimeInit # evs @ [DumpProfileResults, FreeInputs],
                destroy_planned_buffers planned_buffers s')
             else if fopen_opens world (FLAGS_prof_result_path flags) then
               (Inr 0,
                RuntimeInit # evs @
                  [DumpProfileResults, Fopen (FLAGS_prof_result_path flags),
                   WriteProfile (FLAGS_prof_result_path flags) (prof_result_num_bytes world),
                   Fclose (FLAGS_prof_result_path flags), FreeInputs],
                destroy_planned_buffers planned_buffers s')
             else
               (Inl (NullStreamAccess ''fwrite''),
                RuntimeInit # evs @ [DumpProfileResults, Fopen (FLAGS_prof_result_path flags)], s')))"
  by (simp add: main_def bind_emit bind_ET_LOG ret_apply bind_scope_exit
        bind_apply[of "load_execute_flow _ _"] bind_apply[of "write_profile _ _ _"] write_profile_run
        split: prod.splits sum.splits)

lemma forward_run:
  "forward world this jinputs s =
     (case load_execute_flow world (model_path_member this) s of
        (Inl e, evs, s') \<Rightarrow> (Inl e, evs, s')
      | (Inr (planned_buffers, outputs), evs, s') \<Rightarrow>
          (Inr JOptionalNull, evs @ [FreeInputs, OptionalNullCall],
           destroy_planned_buffers planned_buffers s'))"
  by (simp add: forward_def bind_emit bind_ET_LOG ret_apply bind_scope_exit
        bind_apply[of "load_execute_flow _ _"] split: prod.splits sum.splits)


lemma example_program_queries:
  "get_method_name example_program 0 = Inr ''forward''"
  "method_meta example_program ''forward'' = Inr example_meta"
  by (simp_all add: example_program_def)

lemma example_load_method:
  "load_method example_program ''forward'' example_manager =
     (Inr example_method,
      example_manager\<lparr>mm_method_allocator := method_allocator_ctor\<lparr>ma_cur := 192\<rparr>\<rparr>)"
  by (simp add: load_method_def example_program_def example_manager_def allocate_def
        method_allocator_ctor_def enable_profiling_def MemoryAllocator_ctor_def
        sizeof_method_allocator_pool_def)

lemma example_flow:
  "load_execute_flow example_world ''model.pte'' (process_start 4096) =
     (Inr (example_buffers, [EInt 7]),
      [LoaderFrom ''model.pte'', ProgramLoad, Log Info (ModelFileIsLoaded ''model.pte''),
       GetMethodName 0, Log Info (UsingMethod ''forward''), MethodMetaQuery ''forward'',
       Log Info (SettingUpPlannedBuffer 0 1024), Log Info (SettingUpPlannedBuffer 1 2048),
       LoadMethod ''forward'' example_manager, Log Info MethodLoaded, PrepareInputs,
       Log Info InputsPrepared,
       ExecuteMethod (example_manager\<lparr>mm_method_allocator := method_allocator_ctor\<lparr>ma_cur := 192\<rparr>\<rparr>),
       Log Info ModelExecutedSuccessfully, OutputsSize, Log Info (NumOutputs 1), GetOutputs 1,
       PrintOutput 0 (EInt 7)],
      example_after)"
  by (simp add: load_execute_flow_run load_program_run first_method_run example_world_def
        example_program_queries
        example_assemble load_and_execute_run example_load_method example_method_def
        filled_outputs_def)

lemma unparsable_flow:
  "load_execute_flow unparsable_world ''model.pte'' s =
     (Inl (FailedResultAccess ''program->get_method_name(0)''),
      [LoaderFrom ''model.pte'', ProgramLoad,
       Log Error (FailedToParseModelFile ''model.pte''),
       Log Info (ModelFileIsLoaded ''model.pte'')], s)"
  by (simp add: load_execute_flow_run load_program_run first_method_run unparsable_world_def)

lemma load_program_pure:
  "load_program world model_path s = (r, evs, s') \<Longrightarrow> s' = s \<and> load_program world model_path t = (r, evs, t)"
  by (auto simp: load_program_run split: sum.splits)

lemma first_method_pure:
  "first_method program s = (r, evs, s') \<Longrightarrow> s' = s \<and> first_method program t = (r, evs, t)"
  by (auto simp: first_method_run split: sum.splits)

lemma load_and_execute_pure:
  "load_and_execute program name mm s = (r, evs, s') \<Longrightarrow>
   s' = s \<and> load_and_execute program name mm t = (r, evs, t)"
  by (auto simp: load_and_execute_run split: sum.splits prod.splits if_splits)

lemma quiet_simps [simp]:
  "quiet []"
  "quiet (ev # evs) = (flow_step_of ev = None \<and> manager_of ev = None \<and> quiet evs)"
  "quiet (evs @ evs') = (quiet evs \<and> quiet evs')"
  by (auto simp: quiet_def)

lemma quiet_load_program: "load_program world model_path s = (r, evs, s') \<Longrightarrow> quiet evs"
  by (auto simp: load_program_run split: sum.splits)

lemma quiet_first_method: "first_method program s = (r, evs, s') \<Longrightarrow> quiet evs"
  by (auto simp: first_method_run split: sum.splits)

lemma quiet_assemble: "assemble_memory_manager meta s = (r, evs, s') \<Longrightarrow> quiet evs"
  using assemble_memory_manager_frame[of meta s r evs s'] by (auto simp: quiet_def)

lemma load_execute_flow_cases [case_names early assembled]:
  obtains
    (early) e evs s' where
      "load_execute_flow world model_path s = (Inl e, evs, s')"
      "quiet evs" "pool_present s \<longrightarrow> pool_present s'" "heap_limit s' = heap_limit s"
  | (assembled) program evs1 program_value method_name meta evs2
      planned_buffers memory_manager evs3 s3 r4 evs4 where
      "load_program world model_path s = (Inr program, evs1, s)"
      "first_method program s = (Inr (program_value, method_name, meta), evs2, s)"
      "assemble_memory_manager meta s = (Inr (planned_buffers, memory_manager), evs3, s3)"
      "load_and_execute program_value method_name memory_manager s3 = (r4, evs4, s3)"
      "load_execute_flow world model_path s =
         (case r4 of Inl e \<Rightarrow> Inl e | Inr outputs \<Rightarrow> Inr (planned_buffers, outputs),
          evs1 @ evs2 @ evs3 @ evs4, s3)"
      "quiet (evs1 @ evs2 @ evs3)"
proof -
  obtain r1 evs1 where lp: "load_program world model_path s = (r1, evs1, s)"
    using load_program_state[of world model_path s] by (metis prod.collapse)
  note q1 = quiet_load_program[OF lp]
  show ?thesis
  proof (cases r1)
    case (Inl e)
    then have "load_execute_flow world model_path s = (Inl e, evs1, s)"
      by (simp add: load_execute_flow_run lp)
    then show ?thesis using q1 by (intro early[of e evs1 s]) simp_all
  next
    case r1: (Inr program)
    obtain r2 evs2 where fm: "first_method program s = (r2, evs2, s)"
      using first_method_state[of program s] by (metis prod.collapse)
    note q2 = quiet_first_method[OF fm]
    show ?thesis
    proof (cases r2)
      case (Inl e)
      then have "load_execute_flow world model_path s = (Inl e, evs1 @ evs2, s)"
        by (simp add: load_execute_flow_run lp r1 fm)
      then show ?thesis using q1 q2 by (intro early[of e "evs1 @ evs2" s]) simp_all
    next
      case r2: (Inr triple)
      obtain program_value method_name meta where triple: "triple = (program_value, method_name, meta)"
        by (cases triple)
      obtain r3 evs3 s3 where am: "assemble_memory_manager meta s = (r3, evs3, s3)"
        by (cases "assemble_memory_manager meta s")
      note q3 = quiet_assemble[OF am]
      note f3 = assemble_memory_manager_frame[OF am]
      show ?thesis
      proof (cases r3)
        case (Inl e)
        then have "load_execute_flow world model_path s = (Inl e, evs1 @ evs2 @ evs3, s3)"
          by (simp add: load_execute_flow_run lp r1 fm r2 triple am)
        then show ?thesis using q1 q2 q3 f3 by (intro early[of e "evs1 @ evs2 @ evs3" s3]) simp_all
      next
        case r3: (Inr pair)
        obtain planned_buffers memory_manager where pair: "pair = (planned_buffers, memory_manager)"
          by (cases pair)
        obtain r4 evs4 where le: "load_and_execute program_value method_name memory_manager s3 = (r4, evs4, s3)"
          using load_and_execute_state[of program_value method_name memory_manager s3]
          by (metis prod.collapse)
        have "load_execute_flow world model_path s =
                (case r4 of Inl e \<Rightarrow> Inl e | Inr outputs \<Rightarrow> Inr (planned_buffers, outputs),
                 evs1 @ evs2 @ evs3 @ evs4, s3)"
          by (cases r4) (simp_all add: load_execute_flow_run lp r1 fm r2 triple am r3 pair le)
        then show ?thesis
          using q1 q2 q3 lp r1 fm r2 triple am r3 pair le
          by (intro assembled[of program evs1 program_value method_name meta evs2
                planned_buffers memory_manager evs3 s3 r4 evs4]) simp_all
      qed
    qed
  qed
qed

text \<open>What each failing construction step does to the flow: the loader's, the method
  name's, the metadata's and the method's failures end the run at their check; a failed parse
  does not.\<close>

lemma failed_loader_stops:
  "FileDataLoader_from world model_path = Inl e \<Longrightarrow>
   load_execute_flow world model_path s =
     (Inl (CheckFailed ''FileDataLoader::from() failed''), [LoaderFrom model_path], s)"
  by (simp add: load_execute_flow_run load_program_run)

lemma failed_parse_goes_on:
  "FileDataLoader_from world model_path = Inr loader_value \<Longrightarrow>
   Program_load world loader_value = Inl e \<Longrightarrow>
   load_execute_flow world model_path s =
     (Inl (FailedResultAccess ''program->get_method_name(0)''),
      [LoaderFrom model_path, ProgramLoad,
       Log Error (FailedToParseModelFile model_path),
       Log Info (ModelFileIsLoaded model_path)], s)"
  by (simp add: load_execute_flow_run load_program_run first_method_run)

lemma failed_method_meta_stops:
  "FileDataLoader_from world model_path = Inr loader_value \<Longrightarrow>
   Program_load world loader_value = Inr program \<Longrightarrow>
   get_method_name program 0 = Inr name \<Longrightarrow>
   method_meta program name = Inl e \<Longrightarrow>
   load_execute_flow world model_path s =
     (Inl (CheckFailed ''Failed to get method_meta''),
      [LoaderFrom model_path, ProgramLoad, Log Info (ModelFileIsLoaded model_path),
       GetMethodName 0, Log Info (UsingMethod name), MethodMetaQuery name], s)"
  by (simp add: load_execute_flow_run load_program_run first_method_run)

lemma failed_load_method_stops:
  "fst (load_method program name memory_manager) = Inl e \<Longrightarrow>
   load_and_execute program name memory_manager s =
     (Inl (CheckFailed ''Loading of method failed''), [LoadMethod name memory_manager], s)"
  by (cases "load_method program name memory_manager") (simp add: load_and_execute_run)

section \<open>A failed parse does not stop the run\<close>

text \<open>
  C2. Every other construction step is followed by a check that aborts the run. After
  \<^verbatim>\<open>Program::load\<close> there is only a log line: on a file that the loader reads and the
  parser rejects, the runner logs the failure, then logs that the model file is loaded, and
  goes on to \<^verbatim>\<open>program->get_method_name(0)\<close>, where it reaches for the value of the failed
  result. The run ends there and not at the failed parse, in \<^verbatim>\<open>main\<close> and in
  \<^verbatim>\<open>forward\<close> alike.
\<close>

theorem failed_parse_does_not_stop_the_run:
  "main unparsable_world example_flags [] (process_start 4096) =
     (Inl (FailedResultAccess ''program->get_method_name(0)''),
      [RuntimeInit, LoaderFrom ''model.pte'', ProgramLoad,
       Log Error (FailedToParseModelFile ''model.pte''),
       Log Info (ModelFileIsLoaded ''model.pte'')],
      process_start 4096) \<and>
   forward unparsable_world example_jni [] (process_start 4096) =
     (Inl (FailedResultAccess ''program->get_method_name(0)''),
      [LoaderFrom ''model.pte'', ProgramLoad,
       Log Error (FailedToParseModelFile ''model.pte''),
       Log Info (ModelFileIsLoaded ''model.pte'')],
      process_start 4096)"
  by (simp add: main_run forward_run unparsable_flow example_flags_def example_jni_def)

section \<open>The order of the steps\<close>

lemma flow_steps_Nil [simp]: "flow_steps [] = []"
  by (simp add: flow_steps_def)

lemma flow_steps_Cons [simp]:
  "flow_steps (ev # evs) = (case flow_step_of ev of None \<Rightarrow> flow_steps evs | Some st \<Rightarrow> st # flow_steps evs)"
  by (cases "flow_step_of ev") (simp_all add: flow_steps_def)

lemma flow_steps_append [simp]: "flow_steps (evs @ evs') = flow_steps evs @ flow_steps evs'"
  by (induction evs) (simp_all split: option.splits)

lemma flow_steps_quiet: "quiet evs \<Longrightarrow> flow_steps evs = []"
  by (induction evs) simp_all

lemma flow_steps_prints [simp]: "flow_steps (map (\<lambda>j. PrintOutput j (f j)) js) = []"
  by (induction js) simp_all

lemma load_and_execute_steps:
  assumes "load_and_execute program name mm s = (r, evs, s')"
  shows "prefix (flow_steps evs) [BindMethod, FillInputs, ExecuteOnce, ReadOutputs]"
    and "(\<exists>outputs. r = Inr outputs) \<Longrightarrow> flow_steps evs = [BindMethod, FillInputs, ExecuteOnce, ReadOutputs]"
  using assms
  by (auto simp: load_and_execute_run split: sum.splits prod.splits if_splits)

lemma load_execute_flow_steps:
  "prefix (flow_steps (events (load_execute_flow world model_path s)))
     [BindMethod, FillInputs, ExecuteOnce, ReadOutputs] \<and>
   ((\<exists>r. outcome (load_execute_flow world model_path s) = Inr r) \<longrightarrow>
      flow_steps (events (load_execute_flow world model_path s)) =
        [BindMethod, FillInputs, ExecuteOnce, ReadOutputs])"
proof (cases world model_path s rule: load_execute_flow_cases)
  case (early e evs s')
  then show ?thesis by (simp add: events_def outcome_def flow_steps_quiet)
next
  case (assembled program evs1 program_value method_name meta evs2 planned_buffers memory_manager evs3 s3 r4 evs4)
  note st = load_and_execute_steps[OF assembled(4)]
  from assembled(6) have q: "flow_steps evs1 = []" "flow_steps evs2 = []" "flow_steps evs3 = []"
    by (simp_all add: flow_steps_quiet)
  show ?thesis
    using st by (cases r4) (simp_all add: assembled(5) events_def outcome_def q)
qed

lemma example_forward:
  "outcome (forward example_world example_jni jinputs (process_start 4096)) = Inr JOptionalNull"
  by (simp add: forward_run example_jni_def example_flow outcome_def)

lemma example_forward_run:
  "forward example_world example_jni jinputs (process_start 4096) =
     (Inr JOptionalNull,
      [LoaderFrom ''model.pte'', ProgramLoad, Log Info (ModelFileIsLoaded ''model.pte''),
       GetMethodName 0, Log Info (UsingMethod ''forward''), MethodMetaQuery ''forward'',
       Log Info (SettingUpPlannedBuffer 0 1024), Log Info (SettingUpPlannedBuffer 1 2048),
       LoadMethod ''forward'' example_manager, Log Info MethodLoaded, PrepareInputs,
       Log Info InputsPrepared,
       ExecuteMethod (example_manager\<lparr>mm_method_allocator := method_allocator_ctor\<lparr>ma_cur := 192\<rparr>\<rparr>),
       Log Info ModelExecutedSuccessfully, OutputsSize, Log Info (NumOutputs 1), GetOutputs 1,
       PrintOutput 0 (EInt 7), FreeInputs, OptionalNullCall],
      example_final)"
  by (simp add: forward_run example_jni_def example_flow example_buffers_def example_after_def
        example_final_def delete_array_def zero_block_def)

lemma example_main_run:
  "main example_world example_flags [] (process_start 4096) =
     (Inr 0,
      [RuntimeInit,
       LoaderFrom ''model.pte'', ProgramLoad, Log Info (ModelFileIsLoaded ''model.pte''),
       GetMethodName 0, Log Info (UsingMethod ''forward''), MethodMetaQuery ''forward'',
       Log Info (SettingUpPlannedBuffer 0 1024), Log Info (SettingUpPlannedBuffer 1 2048),
       LoadMethod ''forward'' example_manager, Log Info MethodLoaded, PrepareInputs,
       Log Info InputsPrepared,
       ExecuteMethod (example_manager\<lparr>mm_method_allocator := method_allocator_ctor\<lparr>ma_cur := 192\<rparr>\<rparr>),
       Log Info ModelExecutedSuccessfully, OutputsSize, Log Info (NumOutputs 1), GetOutputs 1,
       PrintOutput 0 (EInt 7), DumpProfileResults, FreeInputs],
      example_final)"
proof -
  have p: "prof_result_num_bytes example_world = 0" "FLAGS_model_path example_flags = ''model.pte''"
    by (simp_all add: example_world_def example_flags_def)
  show ?thesis
    by (simp add: main_run p example_flow example_buffers_def example_after_def
          example_final_def delete_array_def zero_block_def)
qed

lemma quiet_no_bind: "quiet evs \<Longrightarrow> LoadMethod name mm \<notin> set evs"
  by (auto simp: quiet_def)

lemma load_and_execute_bind:
  "load_and_execute program name mm s = (r, evs, s') \<Longrightarrow> LoadMethod name' mm' \<in> set evs \<Longrightarrow>
   name' = name \<and> mm' = mm"
  by (cases "load_method program name mm")
     (auto simp: load_and_execute_run split: sum.splits if_splits)

lemma load_program_returns:
  "load_program world model_path s = (Inr program, evs, s') \<Longrightarrow>
   \<exists>loader_value. FileDataLoader_from world model_path = Inr loader_value \<and>
                  program = Program_load world loader_value"
  by (auto simp: load_program_run split: sum.splits)

lemma first_method_returns:
  "first_method program s = (Inr (program_value, name, meta), evs, s') \<Longrightarrow>
   program = Inr program_value \<and> get_method_name program_value 0 = Inr name \<and>
   method_meta program_value name = Inr meta"
  by (auto simp: first_method_run split: sum.splits)

text \<open>The manager a method is bound with is the one assembled for that method's metadata.\<close>

lemma load_execute_flow_binding:
  assumes "LoadMethod name mm \<in> set (events (load_execute_flow world model_path s))"
  shows "\<exists>loader_value program meta planned_buffers evs s'.
           FileDataLoader_from world model_path = Inr loader_value \<and>
           Program_load world loader_value = Inr program \<and>
           get_method_name program 0 = Inr name \<and>
           method_meta program name = Inr meta \<and>
           assemble_memory_manager meta s = (Inr (planned_buffers, mm), evs, s')"
proof (cases world model_path s rule: load_execute_flow_cases)
  case (early e evs s')
  with assms show ?thesis by (simp add: events_def quiet_no_bind)
next
  case (assembled program evs1 program_value method_name meta evs2 planned_buffers memory_manager evs3 s3 r4 evs4)
  from assembled(6) have "LoadMethod name mm \<notin> set (evs1 @ evs2 @ evs3)"
    by (rule quiet_no_bind)
  with assms assembled(5) have "LoadMethod name mm \<in> set evs4"
    by (simp add: events_def)
  from load_and_execute_bind[OF assembled(4) this]
  have eq: "name = method_name" "mm = memory_manager" by simp_all
  from load_program_returns[OF assembled(1)] obtain loader_value where
    lv: "FileDataLoader_from world model_path = Inr loader_value"
    and pr: "program = Program_load world loader_value" by blast
  from first_method_returns[OF assembled(2)] have
    pv: "program = Inr program_value"
    and nm: "get_method_name program_value 0 = Inr method_name"
    and mt: "method_meta program_value method_name = Inr meta" by simp_all
  from pr pv have pl: "Program_load world loader_value = Inr program_value" by simp
  from lv pl nm mt assembled(3) show ?thesis
    unfolding eq by blast
qed

lemma forward_binding:
  "LoadMethod name mm \<in> set (events (forward world this jinputs s)) \<Longrightarrow>
   LoadMethod name mm \<in> set (events (load_execute_flow world (model_path_member this) s))"
  by (cases "load_execute_flow world (model_path_member this) s")
     (auto simp: forward_run events_def split: sum.splits)

lemma main_binding:
  "LoadMethod name mm \<in> set (events (main world flags extra_args s)) \<Longrightarrow>
   LoadMethod name mm \<in> set (events (load_execute_flow world (FLAGS_model_path flags) s))"
  by (cases "load_execute_flow world (FLAGS_model_path flags) s")
     (auto simp: main_run events_def split: sum.splits if_splits)

text \<open>
  C7. In every run of \<^verbatim>\<open>main\<close> and of \<^verbatim>\<open>forward\<close> the steps bind, fill inputs,
  execute, read outputs occur in this order, each at most once: the steps of a run are a
  prefix of the four. A run that returns (for \<^verbatim>\<open>main\<close>: with no extra arguments, so that
  there is a cycle at all) has exactly the four, so it executes the method exactly once,
  after the inputs are prepared and before the outputs are read. And whenever a method is
  bound, it is the first method of the program at the model path, bound with the memory
  manager that was assembled for that method's metadata in the state the run started in.
\<close>

theorem cycle_steps_in_order:
  "prefix (flow_steps (events (main world flags extra_args s)))
     [BindMethod, FillInputs, ExecuteOnce, ReadOutputs] \<and>
   prefix (flow_steps (events (forward world this jinputs s)))
     [BindMethod, FillInputs, ExecuteOnce, ReadOutputs] \<and>
   (extra_args = [] \<and> (\<exists>r. outcome (main world flags extra_args s) = Inr r) \<longrightarrow>
      flow_steps (events (main world flags extra_args s)) =
        [BindMethod, FillInputs, ExecuteOnce, ReadOutputs]) \<and>
   ((\<exists>r. outcome (forward world this jinputs s) = Inr r) \<longrightarrow>
      flow_steps (events (forward world this jinputs s)) =
        [BindMethod, FillInputs, ExecuteOnce, ReadOutputs]) \<and>
   (\<forall>name mm. LoadMethod name mm \<in> set (events (main world flags extra_args s)) \<longrightarrow>
      (\<exists>loader_value program meta planned_buffers evs s'.
         FileDataLoader_from world (FLAGS_model_path flags) = Inr loader_value \<and>
         Program_load world loader_value = Inr program \<and>
         get_method_name program 0 = Inr name \<and>
         method_meta program name = Inr meta \<and>
         assemble_memory_manager meta s = (Inr (planned_buffers, mm), evs, s'))) \<and>
   (\<forall>name mm. LoadMethod name mm \<in> set (events (forward world this jinputs s)) \<longrightarrow>
      (\<exists>loader_value program meta planned_buffers evs s'.
         FileDataLoader_from world (model_path_member this) = Inr loader_value \<and>
         Program_load world loader_value = Inr program \<and>
         get_method_name program 0 = Inr name \<and>
         method_meta program name = Inr meta \<and>
         assemble_memory_manager meta s = (Inr (planned_buffers, mm), evs, s')))"
proof -
  note m = load_execute_flow_steps[of world "FLAGS_model_path flags" s]
  note f = load_execute_flow_steps[of world "model_path_member this" s]
  obtain rm em sm where fm: "load_execute_flow world (FLAGS_model_path flags) s = (rm, em, sm)"
    by (cases "load_execute_flow world (FLAGS_model_path flags) s")
  obtain rf ef sf where ff: "load_execute_flow world (model_path_member this) s = (rf, ef, sf)"
    by (cases "load_execute_flow world (model_path_member this) s")
  have main_part:
    "prefix (flow_steps (events (main world flags extra_args s)))
       [BindMethod, FillInputs, ExecuteOnce, ReadOutputs] \<and>
     (extra_args = [] \<and> (\<exists>r. outcome (main world flags extra_args s) = Inr r) \<longrightarrow>
        flow_steps (events (main world flags extra_args s)) =
          [BindMethod, FillInputs, ExecuteOnce, ReadOutputs])"
    using m
    by (cases rm) (auto simp: main_run fm events_def outcome_def split: prod.splits)
  have forward_part:
    "prefix (flow_steps (events (forward world this jinputs s)))
       [BindMethod, FillInputs, ExecuteOnce, ReadOutputs] \<and>
     ((\<exists>r. outcome (forward world this jinputs s) = Inr r) \<longrightarrow>
        flow_steps (events (forward world this jinputs s)) =
          [BindMethod, FillInputs, ExecuteOnce, ReadOutputs])"
    using f
    by (cases rf) (auto simp: forward_run ff events_def outcome_def split: prod.splits)
  have main_bound:
    "\<forall>name mm. LoadMethod name mm \<in> set (events (main world flags extra_args s)) \<longrightarrow>
      (\<exists>loader_value program meta planned_buffers evs s'.
         FileDataLoader_from world (FLAGS_model_path flags) = Inr loader_value \<and>
         Program_load world loader_value = Inr program \<and>
         get_method_name program 0 = Inr name \<and>
         method_meta program name = Inr meta \<and>
         assemble_memory_manager meta s = (Inr (planned_buffers, mm), evs, s'))"
    using load_execute_flow_binding main_binding by blast
  have forward_bound:
    "\<forall>name mm. LoadMethod name mm \<in> set (events (forward world this jinputs s)) \<longrightarrow>
      (\<exists>loader_value program meta planned_buffers evs s'.
         FileDataLoader_from world (model_path_member this) = Inr loader_value \<and>
         Program_load world loader_value = Inr program \<and>
         get_method_name program 0 = Inr name \<and>
         method_meta program name = Inr meta \<and>
         assemble_memory_manager meta s = (Inr (planned_buffers, mm), evs, s'))"
    using load_execute_flow_binding forward_binding by blast
  from main_part forward_part main_bound forward_bound show ?thesis by blast
qed

theorem cycle_steps_in_order_witness:
  "flow_steps (events (forward example_world example_jni [] (process_start 4096))) =
     [BindMethod, FillInputs, ExecuteOnce, ReadOutputs] \<and>
   (\<exists>loader_value program meta planned_buffers evs s'.
      FileDataLoader_from example_world (model_path_member example_jni) = Inr loader_value \<and>
      Program_load example_world loader_value = Inr program \<and>
      get_method_name program 0 = Inr ''forward'' \<and>
      method_meta program ''forward'' = Inr meta \<and>
      assemble_memory_manager meta (process_start 4096) =
        (Inr (planned_buffers, example_manager), evs, s'))"
proof -
  note c7 = cycle_steps_in_order[of example_world example_flags "[]" "process_start 4096" example_jni "[]"]
  have steps: "flow_steps (events (forward example_world example_jni [] (process_start 4096))) =
                 [BindMethod, FillInputs, ExecuteOnce, ReadOutputs]"
    using c7 example_forward[of "[]"] by simp
  have bound: "LoadMethod ''forward'' example_manager \<in>
                 set (events (forward example_world example_jni [] (process_start 4096)))"
    by (simp add: example_forward_run events_def)
  from c7 have "\<forall>name mm. LoadMethod name mm \<in> set (events (forward example_world example_jni [] (process_start 4096))) \<longrightarrow>
      (\<exists>loader_value program meta planned_buffers evs s'.
         FileDataLoader_from example_world (model_path_member example_jni) = Inr loader_value \<and>
         Program_load example_world loader_value = Inr program \<and>
         get_method_name program 0 = Inr name \<and>
         method_meta program name = Inr meta \<and>
         assemble_memory_manager meta (process_start 4096) = (Inr (planned_buffers, mm), evs, s'))"
    by blast
  with bound steps show ?thesis by blast
qed

section \<open>The arena of a cycle\<close>

lemma managers_Nil [simp]: "managers [] = []"
  by (simp add: managers_def)

lemma managers_Cons [simp]:
  "managers (ev # evs) = (case manager_of ev of None \<Rightarrow> managers evs | Some mm \<Rightarrow> mm # managers evs)"
  by (cases "manager_of ev") (simp_all add: managers_def)

lemma managers_append [simp]: "managers (evs @ evs') = managers evs @ managers evs'"
  by (induction evs) (simp_all split: option.splits)

lemma managers_quiet: "quiet evs \<Longrightarrow> managers evs = []"
  by (induction evs) simp_all

lemma managers_prints [simp]: "managers (map (\<lambda>j. PrintOutput j (f j)) js) = []"
  by (induction js) simp_all

lemma load_allocations_keeps:
  "load_allocations ns a = (r, a') \<Longrightarrow>
   ma_base a' = ma_base a \<and> ma_size a' = ma_size a \<and> ma_profiling a' = ma_profiling a \<and>
   (ma_cur a \<le> ma_size a \<longrightarrow> ma_cur a' \<le> ma_size a)"
proof (induction ns arbitrary: a)
  case Nil
  then show ?case by simp
next
  case (Cons n ns)
  obtain r1 a1 where one: "allocate n a = (r1, a1)" by (cases "allocate n a")
  note k = allocate_keeps[OF one]
  show ?case
  proof (cases r1)
    case (Inl e)
    with Cons.prems one k show ?thesis by simp
  next
    case (Inr sp)
    with Cons.prems one have "load_allocations ns a1 = (r, a')" by simp
    from Cons.IH[OF this] k show ?thesis by simp
  qed
qed

lemma load_method_keeps:
  assumes "load_method program name mm = (r, mm')"
  shows "mm_planned_memory mm' = mm_planned_memory mm \<and>
         ma_base (mm_method_allocator mm') = ma_base (mm_method_allocator mm) \<and>
         ma_size (mm_method_allocator mm') = ma_size (mm_method_allocator mm) \<and>
         (ma_cur (mm_method_allocator mm) \<le> ma_size (mm_method_allocator mm) \<longrightarrow>
          ma_cur (mm_method_allocator mm') \<le> ma_size (mm_method_allocator mm))"
proof -
  obtain ra a' where la: "load_allocations (method_load_requests program name) (mm_method_allocator mm) = (ra, a')"
    by (cases "load_allocations (method_load_requests program name) (mm_method_allocator mm)")
  from assms la have "mm' = mm\<lparr>mm_method_allocator := a'\<rparr>"
    by (cases ra) (simp_all add: load_method_def)
  with load_allocations_keeps[OF la] show ?thesis by simp
qed

lemma pool_arena_ctor: "pool_arena method_allocator_ctor"
  by (simp add: pool_arena_def method_allocator_ctor_def enable_profiling_def MemoryAllocator_ctor_def
        sizeof_method_allocator_pool_def)

lemma assemble_memory_manager_allocator:
  "assemble_memory_manager meta s = (Inr (planned_buffers, mm), evs, s') \<Longrightarrow>
   mm_method_allocator mm = method_allocator_ctor"
  by (auto simp: assemble_memory_manager_loop split: prod.splits sum.splits)

lemma load_and_execute_managers:
  assumes "load_and_execute program name mm s = (r, evs, s')"
      and "pool_arena (mm_method_allocator mm)"
  shows "\<forall>m \<in> set (managers evs). pool_arena (mm_method_allocator m)"
proof -
  obtain rm mm' where lm: "load_method program name mm = (rm, mm')"
    by (cases "load_method program name mm")
  from load_method_keeps[OF lm] assms(2) have "pool_arena (mm_method_allocator mm')"
    by (simp add: pool_arena_def)
  with assms show ?thesis
    by (auto simp: load_and_execute_run lm split: sum.splits if_splits)
qed

lemma load_execute_flow_managers:
  "\<forall>m \<in> set (managers (events (load_execute_flow world model_path s))). pool_arena (mm_method_allocator m)"
proof (cases world model_path s rule: load_execute_flow_cases)
  case (early e evs s')
  then show ?thesis by (simp add: events_def managers_quiet)
next
  case (assembled program evs1 program_value method_name meta evs2 planned_buffers memory_manager evs3 s3 r4 evs4)
  have "pool_arena (mm_method_allocator memory_manager)"
    using assemble_memory_manager_allocator[OF assembled(3)] pool_arena_ctor by simp
  note load_and_execute_managers[OF assembled(4) this]
  moreover from assembled(6) have "managers evs1 = []" "managers evs2 = []" "managers evs3 = []"
    by (simp_all add: managers_quiet)
  ultimately show ?thesis
    by (simp add: assembled(5) events_def)
qed

lemma main_managers:
  "managers (events (main world flags extra_args s)) =
     (if extra_args \<noteq> [] then [] else managers (events (load_execute_flow world (FLAGS_model_path flags) s)))"
  by (cases "load_execute_flow world (FLAGS_model_path flags) s")
     (auto simp: main_run events_def split: sum.splits)

lemma forward_managers:
  "managers (events (forward world this jinputs s)) =
     managers (events (load_execute_flow world (model_path_member this) s))"
  by (cases "load_execute_flow world (model_path_member this) s")
     (auto simp: forward_run events_def split: sum.splits)


lemma assemble_memory_manager_result:
  assumes "assemble_memory_manager meta s = (Inr (planned_buffers, mm), evs, s')"
  shows "planned_buffers = map (\<lambda>i. (length (memory s) + i, 0)) [0..<num_memory_planned_buffers meta]"
    and "mm = \<lparr>mm_method_allocator = method_allocator_ctor,
               mm_planned_memory = HierarchicalAllocator
                 (map (\<lambda>i. \<lparr>span_data = (length (memory s) + i, 0),
                              span_size = declared_size meta i\<rparr>) [0..<num_memory_planned_buffers meta])\<rparr>"
    and "evs = map (\<lambda>i. Log Info (SettingUpPlannedBuffer i (declared_size meta i)))
                 [0..<num_memory_planned_buffers meta]"
    and "s' = s\<lparr>memory := memory s @ map (\<lambda>i. Some (zero_block (declared_size meta i)))
                                        [0..<num_memory_planned_buffers meta],
                 heap_used := heap_used s + (\<Sum>i = 0..<num_memory_planned_buffers meta. declared_size meta i)\<rparr>"
proof -
  note pre = assemble_memory_manager_returns[OF assms]
  note run = assemble_memory_manager_run[OF pre[THEN conjunct1] pre[THEN conjunct2]]
  from assms run show
    "planned_buffers = map (\<lambda>i. (length (memory s) + i, 0)) [0..<num_memory_planned_buffers meta]"
    "mm = \<lparr>mm_method_allocator = method_allocator_ctor,
               mm_planned_memory = HierarchicalAllocator
                 (map (\<lambda>i. \<lparr>span_data = (length (memory s) + i, 0),
                              span_size = declared_size meta i\<rparr>) [0..<num_memory_planned_buffers meta])\<rparr>"
    "evs = map (\<lambda>i. Log Info (SettingUpPlannedBuffer i (declared_size meta i)))
                 [0..<num_memory_planned_buffers meta]"
    "s' = s\<lparr>memory := memory s @ map (\<lambda>i. Some (zero_block (declared_size meta i)))
                                        [0..<num_memory_planned_buffers meta],
                 heap_used := heap_used s + (\<Sum>i = 0..<num_memory_planned_buffers meta. declared_size meta i)\<rparr>"
    by simp_all
qed

lemma load_execute_flow_pool:
  assumes "pool_present s"
  shows "pool_present (final (load_execute_flow world model_path s)) \<and>
         (\<forall>planned_buffers outputs.
            outcome (load_execute_flow world model_path s) = Inr (planned_buffers, outputs) \<longrightarrow>
            (\<forall>p \<in> set planned_buffers. fst p \<noteq> 0))"
proof (cases world model_path s rule: load_execute_flow_cases)
  case (early e evs s')
  then show ?thesis
    using assms pool_present_append by (auto simp: final_def outcome_def)
next
  case (assembled program evs1 program_value method_name meta evs2 planned_buffers memory_manager evs3 s3 r4 evs4)
  note res = assemble_memory_manager_result[OF assembled(3)]
  from assms have nonempty: "0 < length (memory s)"
    by (cases "memory s") (simp_all add: pool_present_def)
  have "pool_present s3"
    using assms res(4) by (intro pool_present_append[of s s3]) simp_all
  moreover have "\<forall>p \<in> set planned_buffers. fst p \<noteq> 0"
    using nonempty by (auto simp: res(1))
  ultimately show ?thesis
    by (cases r4) (simp_all add: assembled(5) final_def outcome_def)
qed

lemma main_pool:
  assumes "pool_present s"
  shows "pool_present (final (main world flags extra_args s))"
proof -
  obtain r evs s' where fl: "load_execute_flow world (FLAGS_model_path flags) s = (r, evs, s')"
    by (cases "load_execute_flow world (FLAGS_model_path flags) s")
  from load_execute_flow_pool[OF assms, of world "FLAGS_model_path flags"] fl
  have a: "pool_present s'" and b: "\<And>pbs outs. r = Inr (pbs, outs) \<Longrightarrow> \<forall>p \<in> set pbs. fst p \<noteq> 0"
    by (simp_all add: final_def outcome_def)
  show ?thesis
    using assms a b
    by (cases r) (auto simp: main_run fl final_def pool_present_destroy split: prod.splits)
qed

lemma forward_pool:
  assumes "pool_present s"
  shows "pool_present (final (forward world this jinputs s))"
proof -
  obtain r evs s' where fl: "load_execute_flow world (model_path_member this) s = (r, evs, s')"
    by (cases "load_execute_flow world (model_path_member this) s")
  from load_execute_flow_pool[OF assms, of world "model_path_member this"] fl
  have a: "pool_present s'" and b: "\<And>pbs outs. r = Inr (pbs, outs) \<Longrightarrow> \<forall>p \<in> set pbs. fst p \<noteq> 0"
    by (simp_all add: final_def outcome_def)
  show ?thesis
    using assms a b
    by (cases r) (auto simp: forward_run fl final_def pool_present_destroy split: prod.splits)
qed

lemma example_assemble_again:
  "assemble_memory_manager example_meta example_final =
     (Inr ([(3, 0), (4, 0)], example_manager_again),
      [Log Info (SettingUpPlannedBuffer 0 1024), Log Info (SettingUpPlannedBuffer 1 2048)],
      \<lparr>memory = [Some (zero_block sizeof_method_allocator_pool), None, None,
                 Some (zero_block 1024), Some (zero_block 2048)],
       heap_used = 3072, heap_limit = 4096\<rparr>)"
  by (simp add: assemble_memory_manager_loop planned_buffers_loop_step planned_buffers_loop_done
        example_meta_def example_final_def example_manager_again_def static_cast_size_t_def)

lemma example_load_method_again:
  "load_method example_program ''forward'' example_manager_again =
     (Inr example_method,
      example_manager_again\<lparr>mm_method_allocator := method_allocator_ctor\<lparr>ma_cur := 192\<rparr>\<rparr>)"
  by (simp add: load_method_def example_program_def example_manager_again_def allocate_def
        method_allocator_ctor_def enable_profiling_def MemoryAllocator_ctor_def
        sizeof_method_allocator_pool_def)

lemma example_forward_run_again:
  "forward example_world example_jni jinputs example_final =
     (Inr JOptionalNull,
      [LoaderFrom ''model.pte'', ProgramLoad, Log Info (ModelFileIsLoaded ''model.pte''),
       GetMethodName 0, Log Info (UsingMethod ''forward''), MethodMetaQuery ''forward'',
       Log Info (SettingUpPlannedBuffer 0 1024), Log Info (SettingUpPlannedBuffer 1 2048),
       LoadMethod ''forward'' example_manager_again, Log Info MethodLoaded, PrepareInputs,
       Log Info InputsPrepared,
       ExecuteMethod (example_manager_again\<lparr>mm_method_allocator := method_allocator_ctor\<lparr>ma_cur := 192\<rparr>\<rparr>),
       Log Info ModelExecutedSuccessfully, OutputsSize, Log Info (NumOutputs 1), GetOutputs 1,
       PrintOutput 0 (EInt 7), FreeInputs, OptionalNullCall],
      example_final_again)"
  by (simp add: forward_run example_jni_def load_execute_flow_run load_program_run first_method_run
        example_world_def example_program_queries
        example_assemble_again load_and_execute_run example_load_method_again example_method_def
        filled_outputs_def example_final_again_def delete_array_def zero_block_def)

lemma pool_arena_span:
  "pool_arena a \<Longrightarrow>
   arena_span a = \<lparr>span_data = method_allocator_pool, span_size = sizeof_method_allocator_pool\<rparr>"
  by (simp add: pool_arena_def arena_span_def sizeof_method_allocator_pool_def)

text \<open>
  C5. From a state of the process (the static pool is there before anything is loaded), in
  every run of \<^verbatim>\<open>main\<close> and of \<^verbatim>\<open>forward\<close>, the memory manager the method is bound
  with and the one it executes with have an arena whose base is the pool and whose capacity
  is 4 * 1024 * 1024 bytes: loading moves the arena's offset only. The pool is still block 0,
  with its size, when the run is over.
\<close>

theorem arena_fixed_during_cycle:
  assumes "pool_present s"
  shows "(\<forall>m \<in> set (managers (events (main world flags extra_args s))).
            pool_arena (mm_method_allocator m)) \<and>
         (\<forall>m \<in> set (managers (events (forward world this jinputs s))).
            pool_arena (mm_method_allocator m)) \<and>
         pool_present (final (main world flags extra_args s)) \<and>
         pool_present (final (forward world this jinputs s))"
  using load_execute_flow_managers main_pool[OF assms] forward_pool[OF assms]
  by (simp add: main_managers forward_managers)

theorem arena_fixed_during_cycle_witness:
  "ma_base (mm_method_allocator (example_manager\<lparr>mm_method_allocator := method_allocator_ctor\<lparr>ma_cur := 192\<rparr>\<rparr>))
     = method_allocator_pool \<and>
   ma_size (mm_method_allocator (example_manager\<lparr>mm_method_allocator := method_allocator_ctor\<lparr>ma_cur := 192\<rparr>\<rparr>))
     = 4 * 1024 * 1024 \<and>
   pool_present example_final"
  using arena_fixed_during_cycle[of "process_start 4096" example_world example_flags "[]" example_jni "[]",
          OF pool_present_start]
  by (simp add: example_forward_run events_def final_def pool_arena_def)


lemma load_and_execute_returns_managers:
  "load_and_execute program name mm s = (Inr outputs, evs, s') \<Longrightarrow>
   managers evs = [mm, snd (load_method program name mm)]"
  by (cases "load_method program name mm")
     (auto simp: load_and_execute_run split: sum.splits if_splits)

text \<open>A flow that returns has bound and executed: its trace has two managers, the first
  with the arena as it was constructed over the pool.\<close>

lemma load_execute_flow_returns_managers:
  assumes "outcome (load_execute_flow world model_path s) = Inr r"
  shows "\<exists>m m'. managers (events (load_execute_flow world model_path s)) = [m, m'] \<and>
                mm_method_allocator m = method_allocator_ctor"
proof (cases world model_path s rule: load_execute_flow_cases)
  case (early e evs s')
  with assms show ?thesis by (simp add: outcome_def)
next
  case (assembled program evs1 program_value method_name meta evs2 planned_buffers memory_manager evs3 s3 r4 evs4)
  from assms assembled(5) obtain outputs where r4: "r4 = Inr outputs"
    by (cases r4) (simp_all add: outcome_def)
  from assembled(4) have "managers evs4 =
      [memory_manager, snd (load_method program_value method_name memory_manager)]"
    unfolding r4 by (rule load_and_execute_returns_managers)
  moreover from assembled(6) have "managers evs1 = []" "managers evs2 = []" "managers evs3 = []"
    by (simp_all add: managers_quiet)
  moreover note assemble_memory_manager_allocator[OF assembled(3)]
  ultimately show ?thesis
    by (simp add: assembled(5) events_def)
qed

lemma main_returns_flow:
  "outcome (main world flags [] s) = Inr r \<Longrightarrow>
   \<exists>r'. outcome (load_execute_flow world (FLAGS_model_path flags) s) = Inr r'"
  by (cases "load_execute_flow world (FLAGS_model_path flags) s")
     (auto simp: main_run outcome_def split: sum.splits)

lemma forward_returns_flow:
  "outcome (forward world this jinputs s) = Inr r \<Longrightarrow>
   \<exists>r'. outcome (load_execute_flow world (model_path_member this) s) = Inr r'"
  by (cases "load_execute_flow world (model_path_member this) s")
     (auto simp: forward_run outcome_def split: sum.splits)

text \<open>
  C10. Whatever the state a cycle starts in, and whichever of \<^verbatim>\<open>main\<close> and \<^verbatim>\<open>forward\<close>
  runs it, its arena is the same region: the static pool, with the pool's capacity. Two
  cycles of one process therefore have the same arena storage. And a cycle does have an
  arena: a run that returns (for \<^verbatim>\<open>main\<close>: with no extra arguments) has bound the method
  with one memory manager and executed it with another, the first holding the arena as it is
  constructed over the whole pool, with nothing allocated yet.
\<close>

theorem cycles_share_the_static_pool:
  "(\<forall>m \<in> set (managers (events (main world flags extra_args s))).
    \<forall>m' \<in> set (managers (events (forward world' this jinputs s'))).
      arena_span (mm_method_allocator m) = arena_span (mm_method_allocator m')) \<and>
   (\<forall>m \<in> set (managers (events (forward world this jinputs s))).
    \<forall>m' \<in> set (managers (events (forward world' this' jinputs' s'))).
      arena_span (mm_method_allocator m) = arena_span (mm_method_allocator m')) \<and>
   (\<forall>m \<in> set (managers (events (main world flags extra_args s)) @
                managers (events (forward world this jinputs s))).
      arena_span (mm_method_allocator m) =
        \<lparr>span_data = method_allocator_pool, span_size = sizeof_method_allocator_pool\<rparr>) \<and>
   (extra_args = [] \<and> (\<exists>r. outcome (main world flags extra_args s) = Inr r) \<longrightarrow>
      (\<exists>m m'. managers (events (main world flags extra_args s)) = [m, m'] \<and>
               mm_method_allocator m = method_allocator_ctor)) \<and>
   ((\<exists>r. outcome (forward world this jinputs s) = Inr r) \<longrightarrow>
      (\<exists>m m'. managers (events (forward world this jinputs s)) = [m, m'] \<and>
               mm_method_allocator m = method_allocator_ctor))"
proof -
  have m: "\<And>w f a t m. m \<in> set (managers (events (main w f a t))) \<Longrightarrow>
             arena_span (mm_method_allocator m) =
               \<lparr>span_data = method_allocator_pool, span_size = sizeof_method_allocator_pool\<rparr>"
    using load_execute_flow_managers
    by (auto simp: main_managers intro!: pool_arena_span split: if_splits)
  have f: "\<And>w th j t m. m \<in> set (managers (events (forward w th j t))) \<Longrightarrow>
             arena_span (mm_method_allocator m) =
               \<lparr>span_data = method_allocator_pool, span_size = sizeof_method_allocator_pool\<rparr>"
    using load_execute_flow_managers
    by (auto simp: forward_managers intro!: pool_arena_span)
  have spans:
    "(\<forall>m \<in> set (managers (events (main world flags extra_args s))).
      \<forall>m' \<in> set (managers (events (forward world' this jinputs s'))).
        arena_span (mm_method_allocator m) = arena_span (mm_method_allocator m')) \<and>
     (\<forall>m \<in> set (managers (events (forward world this jinputs s))).
      \<forall>m' \<in> set (managers (events (forward world' this' jinputs' s'))).
        arena_span (mm_method_allocator m) = arena_span (mm_method_allocator m')) \<and>
     (\<forall>m \<in> set (managers (events (main world flags extra_args s)) @
                  managers (events (forward world this jinputs s))).
        arena_span (mm_method_allocator m) =
          \<lparr>span_data = method_allocator_pool, span_size = sizeof_method_allocator_pool\<rparr>)"
    using m f by (auto simp del: Span.simps)
  have main_has:
    "extra_args = [] \<and> (\<exists>r. outcome (main world flags extra_args s) = Inr r) \<longrightarrow>
      (\<exists>m m'. managers (events (main world flags extra_args s)) = [m, m'] \<and>
               mm_method_allocator m = method_allocator_ctor)"
  proof
    assume a: "extra_args = [] \<and> (\<exists>r. outcome (main world flags extra_args s) = Inr r)"
    then obtain r where "outcome (main world flags [] s) = Inr r" by auto
    from main_returns_flow[OF this] obtain r' where
      "outcome (load_execute_flow world (FLAGS_model_path flags) s) = Inr r'" ..
    from load_execute_flow_returns_managers[OF this] a
    show "\<exists>m m'. managers (events (main world flags extra_args s)) = [m, m'] \<and>
                 mm_method_allocator m = method_allocator_ctor"
      by (simp add: main_managers)
  qed
  have forward_has:
    "(\<exists>r. outcome (forward world this jinputs s) = Inr r) \<longrightarrow>
      (\<exists>m m'. managers (events (forward world this jinputs s)) = [m, m'] \<and>
               mm_method_allocator m = method_allocator_ctor)"
  proof
    assume "\<exists>r. outcome (forward world this jinputs s) = Inr r"
    then obtain r where "outcome (forward world this jinputs s) = Inr r" ..
    from forward_returns_flow[OF this] obtain r' where
      "outcome (load_execute_flow world (model_path_member this) s) = Inr r'" ..
    from load_execute_flow_returns_managers[OF this]
    show "\<exists>m m'. managers (events (forward world this jinputs s)) = [m, m'] \<and>
                 mm_method_allocator m = method_allocator_ctor"
      by (simp add: forward_managers)
  qed
  from spans main_has forward_has show ?thesis by (intro conjI) (elim conjE, assumption)+
qed

theorem cycles_share_the_static_pool_witness:
  "arena_span (mm_method_allocator example_manager) =
     arena_span (mm_method_allocator
       (example_manager_again\<lparr>mm_method_allocator := method_allocator_ctor\<lparr>ma_cur := 192\<rparr>\<rparr>)) \<and>
   (\<exists>m m'. managers (events (main example_world example_flags [] (process_start 4096))) = [m, m'] \<and>
            mm_method_allocator m = method_allocator_ctor)"
proof -
  note c10 = cycles_share_the_static_pool[of example_world example_flags "[]" "process_start 4096"
          example_world example_jni "[]" example_final example_jni "[]"]
  have ret: "outcome (main example_world example_flags [] (process_start 4096)) = Inr 0"
    by (simp add: example_main_run outcome_def)
  have a: "arena_span (mm_method_allocator example_manager) =
     arena_span (mm_method_allocator
       (example_manager_again\<lparr>mm_method_allocator := method_allocator_ctor\<lparr>ma_cur := 192\<rparr>\<rparr>))"
    using c10[THEN conjunct2, THEN conjunct1]
    by (simp add: example_forward_run example_forward_run_again events_def)
  have b: "\<exists>m m'. managers (events (main example_world example_flags [] (process_start 4096))) = [m, m'] \<and>
            mm_method_allocator m = method_allocator_ctor"
    using c10[THEN conjunct2, THEN conjunct2, THEN conjunct2, THEN conjunct1] ret by blast
  from a b show ?thesis ..
qed

section \<open>A repeated cycle\<close>

lemma destroy_fresh_blocks:
  assumes "j \<le> k"
      and "memory st = old @ replicate j None @ map (\<lambda>i. Some (zero_block (d i))) [j..<k]"
  shows "destroy_planned_buffers (map (\<lambda>i. (length old + i, 0)) [j..<k]) st =
           st\<lparr>memory := old @ replicate k None,
              heap_used := heap_used st - (\<Sum>i = j..<k. d i)\<rparr>"
  using assms
proof (induction "k - j" arbitrary: j st)
  case 0
  then show ?case by simp
next
  case (Suc n)
  then have lt: "j < k" and n: "n = k - Suc j" by simp_all
  let ?st = "st\<lparr>memory := old @ replicate (Suc j) None @ map (\<lambda>i. Some (zero_block (d i))) [Suc j..<k],
                 heap_used := heap_used st - d j\<rparr>"
  have mem: "memory st = old @ replicate j None @ Some (zero_block (d j)) # map (\<lambda>i. Some (zero_block (d i))) [Suc j..<k]"
    using Suc.prems(2) lt by (simp add: upt_conv_Cons)
  have at: "memory st ! (length old + j) = Some (zero_block (d j))"
    by (simp add: mem nth_append)
  have len: "length old + j < length (memory st)"
    by (simp add: mem)
  have upd: "(memory st)[length old + j := None] =
               old @ replicate (Suc j) None @ map (\<lambda>i. Some (zero_block (d i))) [Suc j..<k]"
    by (simp add: mem list_update_append replicate_append_same)
  have del: "delete_array (length old + j, 0) st = ?st"
    using len at upd by (simp add: delete_array_def zero_block_def)
  have step: "destroy_planned_buffers (map (\<lambda>i. (length old + i, 0)) [j..<k]) st =
                destroy_planned_buffers (map (\<lambda>i. (length old + i, 0)) [Suc j..<k]) ?st"
    using lt by (simp add: upt_conv_Cons del)
  have sum: "(\<Sum>i = j..<k. d i) = d j + (\<Sum>i = Suc j..<k. d i)"
    using lt by (simp add: sum.atLeast_Suc_lessThan)
  have "Suc j \<le> k" using lt by simp
  from Suc.hyps(1)[OF n this, of ?st] show ?case
    unfolding step by (simp add: sum)
qed

lemma destroy_after_assemble:
  assumes "assemble_memory_manager meta s = (Inr (planned_buffers, mm), evs, s')"
  shows "destroy_planned_buffers planned_buffers s' =
           s\<lparr>memory := memory s @ replicate (num_memory_planned_buffers meta) None\<rparr>"
proof -
  note res = assemble_memory_manager_result[OF assms]
  have mem: "memory s' = memory s @ replicate 0 None @
               map (\<lambda>i. Some (zero_block (declared_size meta i))) [0..<num_memory_planned_buffers meta]"
    by (simp add: res(4))
  have "destroy_planned_buffers planned_buffers s' =
          s'\<lparr>memory := memory s @ replicate (num_memory_planned_buffers meta) None,
             heap_used := heap_used s' - (\<Sum>i = 0..<num_memory_planned_buffers meta. declared_size meta i)\<rparr>"
    unfolding res(1) by (rule destroy_fresh_blocks[OF _ mem]) simp
  then show ?thesis
    by (simp add: res(4))
qed


lemma erase_manager_allocator [simp]:
  "mm_method_allocator (erase_manager mm) = mm_method_allocator mm"
  by (simp add: erase_manager_def)

lemma erase_manager_update [simp]:
  "erase_manager (mm\<lparr>mm_method_allocator := a\<rparr>) = (erase_manager mm)\<lparr>mm_method_allocator := a\<rparr>"
  by (simp add: erase_manager_def)

lemma structure_of_simps [simp]:
  "structure_of [] = []"
  "structure_of (ev # evs) = erase_addresses ev # structure_of evs"
  "structure_of (evs @ evs') = structure_of evs @ structure_of evs'"
  by (simp_all add: structure_of_def)

lemma structure_of_quiet: "quiet evs \<Longrightarrow> structure_of evs = evs"
proof (induction evs)
  case Nil
  then show ?case by simp
next
  case (Cons ev evs)
  then show ?case by (cases ev) simp_all
qed

lemma structure_of_prints [simp]:
  "structure_of (map (\<lambda>j. PrintOutput j (f j)) js) = map (\<lambda>j. PrintOutput j (f j)) js"
  by (induction js) simp_all

lemma load_method_erase:
  assumes "erase_manager mm = erase_manager mm'"
  shows "fst (load_method program name mm) = fst (load_method program name mm') \<and>
         erase_manager (snd (load_method program name mm)) =
         erase_manager (snd (load_method program name mm'))"
proof -
  from assms have a: "mm_method_allocator mm = mm_method_allocator mm'"
    by (metis erase_manager_allocator)
  obtain ra a' where la: "load_allocations (method_load_requests program name) (mm_method_allocator mm') = (ra, a')"
    by (cases "load_allocations (method_load_requests program name) (mm_method_allocator mm')")
  show ?thesis
    using assms by (cases ra) (simp_all add: load_method_def a la)
qed

lemma load_and_execute_structure:
  assumes "erase_manager mm = erase_manager mm'"
  shows "fst (load_and_execute program name mm s) = fst (load_and_execute program name mm' t) \<and>
         structure_of (fst (snd (load_and_execute program name mm s))) =
         structure_of (fst (snd (load_and_execute program name mm' t)))"
proof -
  obtain r1 m1 where l1: "load_method program name mm = (r1, m1)"
    by (cases "load_method program name mm")
  obtain r2 m2 where l2: "load_method program name mm' = (r2, m2)"
    by (cases "load_method program name mm'")
  from load_method_erase[OF assms, of program name] l1 l2
  have r: "r2 = r1" and m: "erase_manager m1 = erase_manager m2" by simp_all
  show ?thesis
    using assms m
    by (cases r1) (simp_all add: load_and_execute_run l1 l2 r)
qed

lemma assemble_memory_manager_again:
  assumes "assemble_memory_manager meta s = (Inr (planned_buffers, mm), evs, s')"
      and "heap_used t = heap_used s" and "heap_limit t = heap_limit s"
  shows "\<exists>planned_buffers' mm' t'.
           assemble_memory_manager meta t = (Inr (planned_buffers', mm'), evs, t') \<and>
           erase_manager mm' = erase_manager mm \<and>
           destroy_planned_buffers planned_buffers' t' =
             t\<lparr>memory := memory t @ replicate (num_memory_planned_buffers meta) None\<rparr>"
proof -
  note pre = assemble_memory_manager_returns[OF assms(1)]
  have room: "0 < num_memory_planned_buffers meta \<longrightarrow>
           heap_used t + (\<Sum>i = 0..<num_memory_planned_buffers meta. declared_size meta i) \<le> heap_limit t"
    using pre assms(2,3) by simp
  note run = assemble_memory_manager_run[OF pre[THEN conjunct1] room]
  note res = assemble_memory_manager_result[OF assms(1)]
  have ev: "map (\<lambda>i. Log Info (SettingUpPlannedBuffer i (declared_size meta i)))
              [0..<num_memory_planned_buffers meta] = evs"
    by (simp add: res(3))
  let ?pb = "map (\<lambda>i. (length (memory t) + i, 0)) [0..<num_memory_planned_buffers meta]"
  let ?mm = "\<lparr>mm_method_allocator = method_allocator_ctor,
              mm_planned_memory = HierarchicalAllocator
                (map (\<lambda>i. \<lparr>span_data = (length (memory t) + i, 0),
                             span_size = declared_size meta i\<rparr>) [0..<num_memory_planned_buffers meta])\<rparr>"
  let ?t' = "t\<lparr>memory := memory t @ map (\<lambda>i. Some (zero_block (declared_size meta i)))
                                       [0..<num_memory_planned_buffers meta],
               heap_used := heap_used t + (\<Sum>i = 0..<num_memory_planned_buffers meta. declared_size meta i)\<rparr>"
  have run': "assemble_memory_manager meta t = (Inr (?pb, ?mm), evs, ?t')"
    using run ev by simp
  have e: "erase_manager ?mm = erase_manager mm"
    by (simp add: res(2) erase_manager_def o_def)
  have d: "destroy_planned_buffers ?pb ?t' =
             t\<lparr>memory := memory t @ replicate (num_memory_planned_buffers meta) None\<rparr>"
    by (rule destroy_after_assemble[OF run])
  from run' e d show ?thesis by blast
qed


lemma forward_returns_cases:
  assumes "outcome (forward world this jinputs s) = Inr r"
  obtains program evs1 program_value method_name meta evs2
      planned_buffers memory_manager evs3 s3 outputs evs4 where
      "load_program world (model_path_member this) s = (Inr program, evs1, s)"
      "first_method program s = (Inr (program_value, method_name, meta), evs2, s)"
      "assemble_memory_manager meta s = (Inr (planned_buffers, memory_manager), evs3, s3)"
      "load_and_execute program_value method_name memory_manager s3 = (Inr outputs, evs4, s3)"
      "forward world this jinputs s =
         (Inr JOptionalNull, evs1 @ evs2 @ evs3 @ evs4 @ [FreeInputs, OptionalNullCall],
          destroy_planned_buffers planned_buffers s3)"
      "r = JOptionalNull"
proof (cases world "model_path_member this" s rule: load_execute_flow_cases)
  case (early e evs s')
  with assms show ?thesis by (simp add: forward_run outcome_def)
next
  case (assembled program evs1 program_value method_name meta evs2 planned_buffers memory_manager evs3 s3 r4 evs4)
  show ?thesis
  proof (cases r4)
    case (Inl e)
    with assms assembled(5) show ?thesis by (simp add: forward_run outcome_def)
  next
    case (Inr outputs)
    with assms assembled show ?thesis
      by (intro that[of program evs1 program_value method_name meta evs2
            planned_buffers memory_manager evs3 s3 outputs evs4])
         (simp_all add: forward_run outcome_def)
  qed
qed

text \<open>
  C6. When a call of \<^verbatim>\<open>forward\<close> returns, the same call made again, in the state the
  first one left, returns the same value and has the same structure: the same log lines (so
  the same planned buffer ids and sizes and the same number of outputs), the same calls, the
  same sizes of the spans handed to the runtime. Only the addresses of the planned buffers
  differ.
\<close>

theorem repeated_forward_same_structure:
  assumes "outcome (forward world this jinputs s) = Inr r"
  shows "outcome (forward world this jinputs (final (forward world this jinputs s))) = Inr r \<and>
         structure_of (events (forward world this jinputs (final (forward world this jinputs s)))) =
         structure_of (events (forward world this jinputs s))"
proof -
  from assms obtain program evs1 program_value method_name meta evs2
      planned_buffers memory_manager evs3 s3 outputs evs4 where
      lp: "load_program world (model_path_member this) s = (Inr program, evs1, s)" and
      fm: "first_method program s = (Inr (program_value, method_name, meta), evs2, s)" and
      am: "assemble_memory_manager meta s = (Inr (planned_buffers, memory_manager), evs3, s3)" and
      le: "load_and_execute program_value method_name memory_manager s3 = (Inr outputs, evs4, s3)" and
      fw: "forward world this jinputs s =
             (Inr JOptionalNull, evs1 @ evs2 @ evs3 @ evs4 @ [FreeInputs, OptionalNullCall],
              destroy_planned_buffers planned_buffers s3)" and
      r: "r = JOptionalNull"
    by (rule forward_returns_cases)
  define t where "t = final (forward world this jinputs s)"
  have t: "t = s\<lparr>memory := memory s @ replicate (num_memory_planned_buffers meta) None\<rparr>"
    by (simp add: t_def fw final_def destroy_after_assemble[OF am])
  have budget: "heap_used t = heap_used s" "heap_limit t = heap_limit s"
    by (simp_all add: t)
  have lp': "load_program world (model_path_member this) t = (Inr program, evs1, t)"
    using load_program_pure[OF lp] by simp
  have fm': "first_method program t = (Inr (program_value, method_name, meta), evs2, t)"
    using first_method_pure[OF fm] by simp
  from assemble_memory_manager_again[OF am budget]
  obtain planned_buffers' mm' t' where
    am': "assemble_memory_manager meta t = (Inr (planned_buffers', mm'), evs3, t')" and
    er: "erase_manager mm' = erase_manager memory_manager"
    by blast
  obtain r4 evs4' where
    le': "load_and_execute program_value method_name mm' t' = (r4, evs4', t')"
    using load_and_execute_state[of program_value method_name mm' t'] by (metis prod.collapse)
  from load_and_execute_structure[OF er, of program_value method_name t' s3] le le'
  have r4: "r4 = Inr outputs" and st: "structure_of evs4' = structure_of evs4"
    by simp_all
  have fw': "forward world this jinputs t =
               (Inr JOptionalNull, evs1 @ evs2 @ evs3 @ evs4' @ [FreeInputs, OptionalNullCall],
                destroy_planned_buffers planned_buffers' t')"
    by (simp add: forward_run load_execute_flow_run lp' fm' am' le' r4)
  have "outcome (forward world this jinputs t) = Inr r \<and>
        structure_of (events (forward world this jinputs t)) =
        structure_of (events (forward world this jinputs s))"
    by (simp add: fw' fw r st outcome_def events_def)
  then show ?thesis
    by (simp only: t_def)
qed

theorem repeated_forward_same_structure_witness:
  "structure_of (events (forward example_world example_jni [] example_final)) =
   structure_of (events (forward example_world example_jni [] (process_start 4096)))"
proof -
  have o: "outcome (forward example_world example_jni [] (process_start 4096)) = Inr JOptionalNull"
    by (rule example_forward)
  have f: "final (forward example_world example_jni [] (process_start 4096)) = example_final"
    by (simp add: example_forward_run final_def)
  from repeated_forward_same_structure[OF o] show ?thesis
    unfolding f by (rule conjunct2)
qed

section \<open>What the JNI binding returns\<close>

text \<open>
  C8, as stated, fails: \<^verbatim>\<open>forward\<close> never reads \<^verbatim>\<open>jinputs\<close> and its value is always
  what \<^verbatim>\<open>optionalNull\<close> gives. On the example model, whose method has the one output
  \<open>EInt 7\<close>, the call returns \<open>JOptionalNull\<close>, not the output marshaled, and returns the same
  for different Java inputs.
\<close>

theorem forward_returns_null_counterexample:
  "outcome (forward example_world example_jni [JLong 5] (process_start 4096)) = Inr JOptionalNull \<and>
   PrintOutput 0 (EInt 7) \<in> set (events (forward example_world example_jni [JLong 5] (process_start 4096))) \<and>
   outcome (forward example_world example_jni [JLong 5] (process_start 4096)) \<noteq> Inr (spec_marshalled (EInt 7)) \<and>
   forward example_world example_jni [JLong 5] (process_start 4096) =
   forward example_world example_jni [JString ''other''] (process_start 4096)"
  by (simp add: example_forward_run outcome_def events_def spec_marshalled_def)

text \<open>
  The profile dump of \<^verbatim>\<open>main\<close> is a step \<^verbatim>\<open>forward\<close> does not have, and \<^verbatim>\<open>main\<close> can stop
  there: with a profile to write and a path \<^verbatim>\<open>fopen\<close> cannot open, \<^verbatim>\<open>fwrite\<close> is handed
  a null stream, after a flow that \<^verbatim>\<open>forward\<close> completes.
\<close>

lemma unwritable_flow:
  "load_execute_flow unwritable_world ''model.pte'' (process_start 4096) =
   load_execute_flow example_world ''model.pte'' (process_start 4096)"
  by (simp add: load_execute_flow_run load_program_run first_method_run example_world_def
        unwritable_world_def)

lemma main_stops_in_profile_dump:
  "outcome (main unwritable_world example_flags [] (process_start 4096)) =
     Inl (NullStreamAccess ''fwrite'') \<and>
   outcome (forward unwritable_world example_jni jinputs (process_start 4096)) = Inr JOptionalNull"
proof -
  have p: "prof_result_num_bytes unwritable_world = 16"
          "\<not> fopen_opens unwritable_world (FLAGS_prof_result_path example_flags)"
          "FLAGS_model_path example_flags = ''model.pte''"
          "model_path_member example_jni = ''model.pte''"
    by (simp_all add: unwritable_world_def example_flags_def example_jni_def)
  show ?thesis
    by (simp add: main_run forward_run p unwritable_flow example_flow outcome_def)
qed

text \<open>
  C8, amended. A call of \<^verbatim>\<open>forward\<close> does not depend on the Java inputs; when it returns,
  it returns \<open>JOptionalNull\<close>; and on the model path of the command-line runner it goes
  through the same load/execute flow as \<^verbatim>\<open>main\<close>: the same steps bind, fill inputs,
  execute, read outputs with the same memory managers, and, up to the events only one of the
  two has (runtime initialisation and the profile dump of \<^verbatim>\<open>main\<close>, the \<^verbatim>\<open>optionalNull\<close>
  call of \<^verbatim>\<open>forward\<close>), the events of \<^verbatim>\<open>main\<close> are a prefix of those of \<^verbatim>\<open>forward\<close>.
  They are the same events when \<^verbatim>\<open>forward\<close> fails, and then \<^verbatim>\<open>main\<close> fails in the same
  way, and when \<^verbatim>\<open>main\<close> returns 0, and then \<^verbatim>\<open>forward\<close> returns too.
\<close>

theorem forward_runs_the_flow_and_returns_null:
  "forward world this jinputs s = forward world this jinputs' s \<and>
   (\<forall>r. outcome (forward world this jinputs s) = Inr r \<longrightarrow> r = JOptionalNull) \<and>
   (FLAGS_model_path flags = model_path_member this \<longrightarrow>
      flow_steps (events (main world flags [] s)) =
      flow_steps (events (forward world this jinputs s)) \<and>
      managers (events (main world flags [] s)) =
      managers (events (forward world this jinputs s)) \<and>
      prefix (filter common_event (events (main world flags [] s)))
             (filter common_event (events (forward world this jinputs s))) \<and>
      (\<forall>e. outcome (forward world this jinputs s) = Inl e \<longrightarrow>
           outcome (main world flags [] s) = Inl e \<and>
           filter common_event (events (main world flags [] s)) =
           filter common_event (events (forward world this jinputs s))) \<and>
      (outcome (main world flags [] s) = Inr 0 \<longrightarrow>
           outcome (forward world this jinputs s) = Inr JOptionalNull \<and>
           filter common_event (events (main world flags [] s)) =
           filter common_event (events (forward world this jinputs s))))"
proof -
  have same: "forward world this jinputs s = forward world this jinputs' s"
    by (simp add: forward_def)
  obtain r evs s' where fl: "load_execute_flow world (model_path_member this) s = (r, evs, s')"
    by (cases "load_execute_flow world (model_path_member this) s")
  have null: "\<forall>r. outcome (forward world this jinputs s) = Inr r \<longrightarrow> r = JOptionalNull"
    by (cases r) (auto simp: forward_run fl outcome_def)
  have flow: "FLAGS_model_path flags = model_path_member this \<longrightarrow>
      flow_steps (events (main world flags [] s)) =
      flow_steps (events (forward world this jinputs s)) \<and>
      managers (events (main world flags [] s)) =
      managers (events (forward world this jinputs s)) \<and>
      prefix (filter common_event (events (main world flags [] s)))
             (filter common_event (events (forward world this jinputs s))) \<and>
      (\<forall>e. outcome (forward world this jinputs s) = Inl e \<longrightarrow>
           outcome (main world flags [] s) = Inl e \<and>
           filter common_event (events (main world flags [] s)) =
           filter common_event (events (forward world this jinputs s))) \<and>
      (outcome (main world flags [] s) = Inr 0 \<longrightarrow>
           outcome (forward world this jinputs s) = Inr JOptionalNull \<and>
           filter common_event (events (main world flags [] s)) =
           filter common_event (events (forward world this jinputs s)))"
  proof (cases r)
    case (Inl e)
    then show ?thesis
      by (simp add: main_run forward_run fl outcome_def events_def)
  next
    case (Inr res)
    obtain planned_buffers outputs where res: "res = (planned_buffers, outputs)"
      by (cases res)
    show ?thesis
      by (simp add: main_run forward_run fl Inr res outcome_def events_def)
  qed
  from same null flow show ?thesis by blast
qed

theorem forward_runs_the_flow_and_returns_null_witness:
  "filter common_event (events (main example_world example_flags [] (process_start 4096))) =
   filter common_event (events (forward example_world example_jni [JLong 5] (process_start 4096))) \<and>
   flow_steps (events (main example_world example_flags [] (process_start 4096))) =
   flow_steps (events (forward example_world example_jni [JLong 5] (process_start 4096)))"
proof -
  have path: "FLAGS_model_path example_flags = model_path_member example_jni"
    by (simp add: example_flags_def example_jni_def)
  have ret: "outcome (main example_world example_flags [] (process_start 4096)) = Inr 0"
    by (simp add: example_main_run outcome_def)
  from forward_runs_the_flow_and_returns_null[of example_world example_jni "[JLong 5]"
         "process_start 4096" "[]" example_flags, THEN conjunct2, THEN conjunct2] path ret
  show ?thesis by blast
qed

end
